(* ===== verification/Prelude.thy ===== *)
theory Prelude
  imports Complex_Main "HOL-Library.Word"
begin

text \<open>
  Shared vocabulary of the development: the types that name the program's values
  (wall-clock times, byte buffers, log levels, Python exceptions), the models of the
  Python built-ins the sources use on strings (\<open>str(n)\<close> in f-strings, \<open>int(s)\<close>,
  \<open>str.upper\<close>, membership in a literal list), and the generic lemmas on lists, options
  and strings that the component theories share.  The collection \<open>model_defs\<close> gathers the
  unfolding rules of small non-recursive operations, so that component proofs can say
  \<open>simp add: model_defs\<close>.
\<close>

named_theorems model_defs "unfolding rules of the model's small operations"

section \<open>Types of the model\<close>

text \<open>
  \<open>time.time()\<close> returns a float number of seconds; the model reads it as a real number
  (float rounding is not modelled).  A Python \<open>bytes\<close> value is a list of octets.
\<close>

type_synonym time = real
type_synonym bytes = "8 word list"

text \<open>The three severity strings the sources pass to the logging sink.\<close>

datatype log_level = INFO | WARNING | CRITICAL

text \<open>The Python exceptions that the modelled code can raise.\<close>

datatype py_error = TypeError | AttributeError | IndexError | KeyError

section \<open>Decimal formatting and parsing of integers\<close>

text \<open>
  \<open>str(n)\<close> (and \<open>f"{n}"\<close>) of a non-negative Python int: its decimal digits, most
  significant first, without leading zeros.
\<close>

definition digit_char :: "nat \<Rightarrow> char" where
  "digit_char d = char_of (48 + d)"

fun str_nat :: "nat \<Rightarrow> string" where
  "str_nat n = (if n < 10 then [digit_char n] else str_nat (n div 10) @ [digit_char (n mod 10)])"

declare str_nat.simps [simp del]

definition str_int :: "int \<Rightarrow> string" where
  "str_int i = (if i < 0 then CHR ''-'' # str_nat (nat (- i)) else str_nat (nat i))"

text \<open>\<open>int(s)\<close> on a string of decimal digits (the inverse direction, used to read a count back).\<close>

definition is_digit :: "char \<Rightarrow> bool" where
  "is_digit c \<longleftrightarrow> (48::nat) \<le> of_char c \<and> (of_char c :: nat) < 58"

fun digits_val :: "nat \<Rightarrow> string \<Rightarrow> nat" where
  "digits_val acc [] = acc"
| "digits_val acc (c # cs) = digits_val (10 * acc + (of_char c - 48)) cs"

definition parse_nat :: "string \<Rightarrow> nat option" where
  "parse_nat s = (if s \<noteq> [] \<and> list_all is_digit s then Some (digits_val 0 s) else None)"

section \<open>Python string built-ins\<close>

text \<open>\<open>str.upper()\<close> on ASCII text: the letters a--z become A--Z, every other character stays.\<close>

definition upper_char :: "char \<Rightarrow> char" where
  "upper_char c = (if 97 \<le> (of_char c :: nat) \<and> (of_char c :: nat) \<le> 122
                   then char_of ((of_char c :: nat) - 32) else c)"

definition upper :: "string \<Rightarrow> string" where
  "upper s = map upper_char s"

text \<open>
  Python's \<open>xs[i]\<close> on a list: a negative index counts from the end, and an index
  outside the list raises \<open>IndexError\<close>.
\<close>

definition py_index :: "'a list \<Rightarrow> int \<Rightarrow> py_error + 'a" where
  "py_index xs i =
     (if - int (length xs) \<le> i \<and> i < int (length xs)
      then Inr (xs ! nat (i mod int (length xs))) else Inl IndexError)"

text \<open>\<open>str.encode()\<close> of ASCII text, and bytes literals such as \<open>b'--frame'\<close>.\<close>

definition ascii_bytes :: "string \<Rightarrow> bytes" where
  "ascii_bytes s = map (\<lambda>c. of_nat (of_char c)) s"

section \<open>Lemmas on digits\<close>

lemma of_char_digit_char [simp]: "d < 10 \<Longrightarrow> (of_char (digit_char d) :: nat) = 48 + d"
  by (simp add: digit_char_def)

lemma is_digit_digit_char [simp]: "d < 10 \<Longrightarrow> is_digit (digit_char d)"
  by (simp add: is_digit_def)

lemma digit_char_inj: "d < 10 \<Longrightarrow> e < 10 \<Longrightarrow> digit_char d = digit_char e \<longleftrightarrow> d = e"
  by (metis add_left_cancel of_char_digit_char)

lemma str_nat_nonempty [simp]: "str_nat n \<noteq> []"
  by (subst str_nat.simps) simp

lemma str_nat_all_digits: "list_all is_digit (str_nat n)"
proof (induction n rule: str_nat.induct)
  case (1 n)
  then show ?case by (subst str_nat.simps) simp
qed

lemma digits_val_snoc: "digits_val acc (xs @ [c]) = 10 * digits_val acc xs + (of_char c - 48)"
  by (induction xs arbitrary: acc) simp_all

lemma digits_val_str_nat: "digits_val 0 (str_nat n) = n"
proof (induction n rule: str_nat.induct)
  case (1 n)
  show ?case
  proof (cases "n < 10")
    case True
    then show ?thesis by (simp add: str_nat.simps [of n])
  next
    case False
    with "1.IH" have "digits_val 0 (str_nat (n div 10)) = n div 10" by simp
    with False show ?thesis by (simp add: str_nat.simps [of n] digits_val_snoc)
  qed
qed

text \<open>Reading back what \<open>str\<close> printed gives the number: the formatting loses nothing.\<close>

lemma parse_str_nat [simp]: "parse_nat (str_nat n) = Some n"
  by (simp add: parse_nat_def str_nat_all_digits digits_val_str_nat)

lemma str_nat_inj: "str_nat m = str_nat n \<longleftrightarrow> m = n"
  by (metis option.inject parse_str_nat)

section \<open>Generic lemmas on lists and options\<close>

lemma py_index_nat [simp]: "0 \<le> i \<Longrightarrow> i < int (length xs) \<Longrightarrow> py_index xs i = Inr (xs ! nat i)"
  by (simp add: py_index_def)

lemma length_ascii_bytes [simp]: "length (ascii_bytes s) = length s"
  by (simp add: ascii_bytes_def)

lemma upper_length [simp]: "length (upper s) = length s"
  by (simp add: upper_def)

lemma upper_ascii_example: "upper ''tab_switch'' = ''TAB_SWITCH''"
  by code_simp

end
