(* ===== verification/Debounce.thy ===== *)
theory Debounce
  imports Prelude
begin

text \<open>
  The detector's classification and the status debouncer of the capture loop
  (\<open>src/camera.py\<close>, \<open>Camera._thread\<close>, lines 89--116).  The detector itself
  (\<open>face_cascade.detectMultiScale\<close> on a half-size grey copy) is OpenCV and is not
  modelled: the model receives the number of faces it returned, \<open>len(faces)\<close>.
  What is modelled is what the code does with that number: the status, level and message
  of lines 97--108, and the emission rule of line 111 with the state updates of lines
  113--114.  The debouncer's state is the pair of class attributes
  \<open>Camera.last_log_time\<close> and \<open>Camera.last_face_status\<close>, the record \<open>debounce\<close>,
  which the camera's state record extends.
\<close>

section \<open>Presence status and classification\<close>

text \<open>The status strings \<open>'detected'\<close>, \<open>'not_detected'\<close> and \<open>'multiple'\<close>.\<close>

datatype face_status = Detected | Not_detected | Multiple

text \<open>Lines 97--108: status, level and message computed from \<open>len(faces)\<close>.\<close>

definition multiple_msg :: "nat \<Rightarrow> string" where
  "multiple_msg n = ''MULTIPLE FACES detected: '' @ str_nat n @ '' people in view.''"

definition classify :: "nat \<Rightarrow> face_status \<times> log_level \<times> string" where
  "classify n =
     (if n = 0 then (Not_detected, CRITICAL, ''User Face NOT DETECTED (out of frame/covered).'')
      else if 1 < n then (Multiple, CRITICAL, multiple_msg n)
      else (Detected, INFO, ''Face detected and centered.''))"

abbreviation status_of :: "nat \<Rightarrow> face_status" where
  "status_of n \<equiv> fst (classify n)"

section \<open>The debouncer\<close>

text \<open>
  Its state: the time of the last emission and the last emitted status.  Both are class
  attributes, initialised when the class body runs: \<open>last_log_time = time.time()\<close> at
  import, \<open>last_face_status = 'detected'\<close>.
\<close>

record debounce =
  last_log_time :: time
  last_face_status :: face_status

definition debounce_init :: "time \<Rightarrow> debounce" where
  "debounce_init t0 = \<lparr>last_log_time = t0, last_face_status = Detected\<rparr>"

text \<open>
  Line 111: log when the status changed, or when it is \<open>'detected'\<close> and more than five
  seconds passed since the last emission.  \<open>now\<close> is the \<open>time.time()\<close> read on that line.
\<close>

definition should_log :: "face_status \<Rightarrow> 'a debounce_scheme \<Rightarrow> time \<Rightarrow> bool" where
  "should_log cur d now \<longleftrightarrow>
     cur \<noteq> last_face_status d \<or> (cur = Detected \<and> now - last_log_time d > 5)"

text \<open>
  One classified sample: \<open>n\<close> faces, \<open>t_check\<close> the clock read on line 111 and
  \<open>t_log\<close> the one read on line 113.  The emitted event carries the status with the
  level and message passed to \<open>log_event\<close>.
\<close>

type_synonym event = "face_status \<times> log_level \<times> string"

definition debounce_step :: "'a debounce_scheme \<Rightarrow> nat \<Rightarrow> time \<Rightarrow> time \<Rightarrow> 'a debounce_scheme \<times> event option" where
  "debounce_step d n t_check t_log =
     (let (st, lvl, msg) = classify n in
      if should_log st d t_check
      then (d\<lparr>last_log_time := t_log, last_face_status := st\<rparr>, Some (st, lvl, msg))
      else (d, None))"

text \<open>A sequence of sampled frames, as \<open>(len(faces), t_check, t_log)\<close>, and the events per sample.\<close>

type_synonym sample = "nat \<times> time \<times> time"

fun debounce_run :: "'a debounce_scheme \<Rightarrow> sample list \<Rightarrow> event option list" where
  "debounce_run d [] = []"
| "debounce_run d ((n, t1, t2) # xs) =
     (let (d', e) = debounce_step d n t1 t2 in e # debounce_run d' xs)"

fun debounce_final :: "'a debounce_scheme \<Rightarrow> sample list \<Rightarrow> 'a debounce_scheme" where
  "debounce_final d [] = d"
| "debounce_final d ((n, t1, t2) # xs) = debounce_final (fst (debounce_step d n t1 t2)) xs"

abbreviation emitted :: "'a debounce_scheme \<Rightarrow> sample list \<Rightarrow> event list" where
  "emitted d xs \<equiv> List.map_filter (\<lambda>e. e) (debounce_run d xs)"

text \<open>
  The emissions of a run with the clock readings of their samples: the status, the time
  read on line 111 and the time recorded on line 113.
\<close>

fun emitted_at :: "'a debounce_scheme \<Rightarrow> sample list \<Rightarrow> (face_status \<times> time \<times> time) list" where
  "emitted_at d [] = []"
| "emitted_at d ((n, t1, t2) # xs) =
     (case debounce_step d n t1 t2 of
        (d', None) \<Rightarrow> emitted_at d' xs
      | (d', Some (st, lvl, msg)) \<Rightarrow> (st, t1, t2) # emitted_at d' xs)"

text \<open>Reading the count back out of a \<open>multiple\<close> message, as an admin reading the log would.\<close>

definition count_of_msg :: "string \<Rightarrow> nat option" where
  "count_of_msg m =
     (let pre = ''MULTIPLE FACES detected: ''; post = '' people in view.'' in
      if take (length pre) m = pre \<and> length pre + length post \<le> length m
         \<and> drop (length m - length post) m = post
      then parse_nat (take (length m - length pre - length post) (drop (length pre) m))
      else None)"

section \<open>Lemmas on one step\<close>

lemma classify_cases:
  "classify n = (if n = 0 then (Not_detected, CRITICAL, ''User Face NOT DETECTED (out of frame/covered).'')
                 else if n = 1 then (Detected, INFO, ''Face detected and centered.'')
                 else (Multiple, CRITICAL, multiple_msg n))"
  by (simp add: classify_def)

lemma debounce_step_silent:
  "snd (debounce_step d n t1 t2) = None \<longleftrightarrow> \<not> should_log (status_of n) d t1"
  by (simp add: debounce_step_def split: prod.splits)

lemma debounce_step_event:
  "snd (debounce_step d n t1 t2) = Some e \<Longrightarrow> e = classify n"
  by (auto simp add: debounce_step_def split: prod.splits if_splits)

lemma debounce_step_status [simp]:
  "last_face_status (fst (debounce_step d n t1 t2)) = status_of n"
  by (auto simp add: debounce_step_def should_log_def split: prod.splits)

lemma debounce_step_time:
  "last_log_time (fst (debounce_step d n t1 t2)) =
     (if should_log (status_of n) d t1 then t2 else last_log_time d)"
  by (simp add: debounce_step_def split: prod.splits)

lemma debounce_run_length [simp]: "length (debounce_run d xs) = length xs"
  by (induction d xs rule: debounce_run.induct) (simp_all split: prod.splits)

lemma debounce_step_None_state:
  "debounce_step d n t1 t2 = (d', None) \<Longrightarrow> d' = d"
  by (simp add: debounce_step_def split: prod.splits if_splits)

section \<open>Lemmas on runs\<close>

lemma debounce_final_append:
  "debounce_final d (xs @ ys) = debounce_final (debounce_final d xs) ys"
  by (induction d xs rule: debounce_final.induct) simp_all

lemma debounce_final_status:
  "last_face_status (debounce_final d (xs @ [(n, t1, t2)])) = status_of n"
  by (simp add: debounce_final_append)

text \<open>The event of sample \<open>i\<close> is the step taken from the state the first \<open>i\<close> samples left.\<close>

lemma debounce_run_nth:
  "i < length xs \<Longrightarrow> debounce_run d xs ! i =
     (case xs ! i of (n, t1, t2) \<Rightarrow> snd (debounce_step (debounce_final d (take i xs)) n t1 t2))"
proof (induction d xs arbitrary: i rule: debounce_run.induct)
  case (1 d)
  then show ?case by simp
next
  case (2 d n t1 t2 xs)
  then show ?case by (cases i) (auto split: prod.splits)
qed

text \<open>After sample \<open>i\<close> the debouncer holds the status of sample \<open>i\<close>, emitted or not.\<close>

lemma debounce_final_take_status:
  "Suc i < length xs \<Longrightarrow> last_face_status (debounce_final d (take (Suc i) xs)) = status_of (fst (xs ! i))"
  by (cases "xs ! i") (simp add: take_Suc_conv_app_nth debounce_final_status)

lemma emitted_Cons:
  "emitted d ((n, t1, t2) # xs) =
     (case snd (debounce_step d n t1 t2) of None \<Rightarrow> emitted d xs
      | Some e \<Rightarrow> e # emitted (fst (debounce_step d n t1 t2)) xs)"
  by (cases "debounce_step d n t1 t2")
     (auto simp: List.map_filter_simps dest: debounce_step_None_state split: option.splits)

lemma debounce_step_cong:
  assumes "last_log_time d = last_log_time d'" and "last_face_status d = last_face_status d'"
  shows "snd (debounce_step d n t1 t2) = snd (debounce_step d' n t1 t2)
    \<and> last_log_time (fst (debounce_step d n t1 t2)) = last_log_time (fst (debounce_step d' n t1 t2))
    \<and> last_face_status (fst (debounce_step d n t1 t2)) = last_face_status (fst (debounce_step d' n t1 t2))"
  using assms by (auto simp: debounce_step_def should_log_def split: prod.splits)

text \<open>A run reads only the two debouncer fields of the state it starts from.\<close>

lemma debounce_run_cong:
  assumes "last_log_time d = last_log_time d'" and "last_face_status d = last_face_status d'"
  shows "debounce_run d xs = debounce_run d' xs
    \<and> last_log_time (debounce_final d xs) = last_log_time (debounce_final d' xs)
    \<and> last_face_status (debounce_final d xs) = last_face_status (debounce_final d' xs)"
  using assms
proof (induction xs arbitrary: d d')
  case Nil
  then show ?case by simp
next
  case (Cons x xs)
  obtain n t1 t2 where x: "x = (n, t1, t2)" by (cases x) auto
  from Cons.prems have c: "snd (debounce_step d n t1 t2) = snd (debounce_step d' n t1 t2)"
    "last_log_time (fst (debounce_step d n t1 t2)) = last_log_time (fst (debounce_step d' n t1 t2))"
    "last_face_status (fst (debounce_step d n t1 t2)) = last_face_status (fst (debounce_step d' n t1 t2))"
    using debounce_step_cong by blast+
  from Cons.IH [OF c(2,3)] c(1) show ?case
    by (cases "debounce_step d n t1 t2", cases "debounce_step d' n t1 t2") (simp add: x)
qed

lemma heartbeat_spacing_gen:
  "successively (\<lambda>(s1, c1, l1) (s2, c2, l2). s1 = s2 \<longrightarrow> c2 - l1 > 5)
     ((last_face_status d, c, last_log_time d) # emitted_at d xs)"
proof (induction xs arbitrary: d c)
  case Nil
  then show ?case by simp
next
  case (Cons x xs)
  obtain n t1 t2 where x: "x = (n, t1, t2)" by (cases x) auto
  obtain a b m where cl: "classify n = (a, b, m)" by (cases "classify n") auto
  show ?case
  proof (cases "should_log (status_of n) d t1")
    case False
    then have "debounce_step d n t1 t2 = (d, None)"
      by (simp add: debounce_step_def cl)
    with Cons.IH [of d c] show ?thesis by (simp add: x)
  next
    case True
    then have st: "debounce_step d n t1 t2 =
        (d\<lparr>last_log_time := t2, last_face_status := status_of n\<rparr>, Some (classify n))"
      by (simp add: debounce_step_def cl)
    from True have "last_face_status d = status_of n \<longrightarrow> t1 - last_log_time d > 5"
      by (auto simp: should_log_def)
    moreover have "successively (\<lambda>(s1, c1, l1) (s2, c2, l2). s1 = s2 \<longrightarrow> c2 - l1 > 5)
        ((status_of n, t1, t2) # emitted_at (d\<lparr>last_log_time := t2, last_face_status := status_of n\<rparr>) xs)"
      using Cons.IH [of "d\<lparr>last_log_time := t2, last_face_status := status_of n\<rparr>" t1] by simp
    ultimately show ?thesis using st by (cases "classify n") (simp add: x)
  qed
qed

section \<open>Properties of the detector and the debouncer\<close>

text \<open>
  C6: every change of the sampled presence status is reported:
  when sample \<open>i + 1\<close> is classified differently from sample \<open>i\<close>, the debouncer emits
  an event for it, whatever the clock says.
\<close>

theorem status_change_emits:
  assumes "Suc i < length xs" and "status_of (fst (xs ! i)) \<noteq> status_of (fst (xs ! Suc i))"
  shows "debounce_run d xs ! Suc i \<noteq> None"
proof -
  obtain m u1 u2 where y: "xs ! Suc i = (m, u1, u2)" by (cases "xs ! Suc i") auto
  from assms show ?thesis
    by (simp add: y debounce_run_nth debounce_step_silent should_log_def debounce_final_take_status)
qed

theorem status_change_emits_witness:
  "Suc 0 < length [(1, 0, 0), (0, 1, 1)] \<and> status_of (fst ([(1::nat, 0::real, 0::real), (0, 1, 1)] ! 0))
     \<noteq> status_of (fst ([(1::nat, 0::real, 0::real), (0, 1, 1)] ! Suc 0)) \<and>
   debounce_run (debounce_init 0) [(1, 0, 0), (0, 1, 1)] ! Suc 0 \<noteq> None"
  using status_change_emits [of 0 "[(1, 0, 0), (0, 1, 1)]" "debounce_init 0"]
  by (simp add: classify_def)

text \<open>
  C7: a steady violation is reported only on entry: when samples
  \<open>i\<close> and \<open>i + 1\<close> are both \<open>not_detected\<close> or both \<open>multiple\<close>, no event is
  emitted for sample \<open>i + 1\<close>, however much time has passed (there is no heartbeat for
  alerts).
\<close>

theorem steady_alert_silent:
  assumes "Suc i < length xs" and "status_of (fst (xs ! i)) = status_of (fst (xs ! Suc i))"
    and "status_of (fst (xs ! Suc i)) \<noteq> Detected"
  shows "debounce_run d xs ! Suc i = None"
proof -
  obtain m u1 u2 where y: "xs ! Suc i = (m, u1, u2)" by (cases "xs ! Suc i") auto
  from assms show ?thesis
    by (simp add: y debounce_run_nth debounce_step_silent should_log_def debounce_final_take_status)
qed

theorem steady_alert_silent_witness:
  "Suc 0 < length [(0, 1, 1), (0, 9, 9)] \<and> status_of (fst ([(0::nat, 1::real, 1::real), (0, 9, 9)] ! 0))
     = status_of (fst ([(0::nat, 1::real, 1::real), (0, 9, 9)] ! Suc 0)) \<and>
   status_of (fst ([(0::nat, 1::real, 1::real), (0, 9, 9)] ! Suc 0)) \<noteq> Detected \<and>
   debounce_run (debounce_init 0) [(0, 1, 1), (0, 9, 9)] ! Suc 0 = None"
  using steady_alert_silent [of 0 "[(0, 1, 1), (0, 9, 9)]" "debounce_init 0"]
  by (simp add: classify_def)

text \<open>
  C8: in the stream of emitted events, preceded by the debouncer's
  initial status, two consecutive entries with the same status are both \<open>detected\<close>:
  an alert status is never emitted twice in a row.
\<close>

theorem no_alert_flooding:
  "successively (\<lambda>a b. a = b \<longrightarrow> b = Detected) (last_face_status d # map fst (emitted d xs))"
proof (induction xs arbitrary: d)
  case Nil
  then show ?case by simp
next
  case (Cons x xs)
  obtain n t1 t2 where x: "x = (n, t1, t2)" by (cases x) auto
  show ?case
  proof (cases "snd (debounce_step d n t1 t2)")
    case None
    with Cons.IH show ?thesis unfolding x emitted_Cons by simp
  next
    case (Some e)
    then have e: "fst e = status_of n" using debounce_step_event by fastforce
    from Some have "should_log (status_of n) d t1"
      using debounce_step_silent [of d n t1 t2] by simp
    then have "last_face_status d = status_of n \<longrightarrow> status_of n = Detected"
      by (auto simp: should_log_def)
    moreover have "successively (\<lambda>a b. a = b \<longrightarrow> b = Detected)
        (status_of n # map fst (emitted (fst (debounce_step d n t1 t2)) xs))"
      using Cons.IH [of "fst (debounce_step d n t1 t2)"] by simp
    ultimately show ?thesis using Some e unfolding x emitted_Cons by simp
  qed
qed

theorem no_alert_flooding_witness:
  "successively (\<lambda>a b. a = b \<longrightarrow> b = Detected)
     (last_face_status (debounce_init 0) #
      map fst (emitted (debounce_init 0) [(0, 1, 1), (0, 2, 2), (3, 3, 3), (1, 4, 4), (1, 12, 12)]))"
  by (rule no_alert_flooding)

text \<open>
  C22: the heartbeat is rate-limited: two consecutive emissions of
  the same status are more than five seconds apart, from the time recorded for the first
  to the clock reading that lets the second through (the initial state counts as an
  emission at \<open>last_log_time\<close>).
\<close>

theorem heartbeat_spacing:
  "successively (\<lambda>(s1, c1, l1) (s2, c2, l2). s1 = s2 \<longrightarrow> c2 - l1 > 5)
     ((last_face_status d, last_log_time d, last_log_time d) # emitted_at d xs)"
  by (rule heartbeat_spacing_gen)

theorem heartbeat_spacing_witness:
  "successively (\<lambda>(s1, c1, l1) (s2, c2, l2). s1 = s2 \<longrightarrow> c2 - l1 > 5)
     [(Detected, 0, 0), (Detected, 6, 6), (Not_detected, 7, 7), (Detected, 8, 8), (Detected, 14 :: real, 14 :: real)]"
proof -
  have "emitted_at (debounce_init 0) [(1, 3, 3), (1, 6, 6), (0, 7, 7), (1, 8, 8), (1, 14, 14)] =
     [(Detected, 6, 6), (Not_detected, 7, 7), (Detected, 8, 8), (Detected, 14, 14)]"
    by (simp add: debounce_init_def debounce_step_def should_log_def classify_def)
  with heartbeat_spacing [of "debounce_init 0" "[(1, 3, 3), (1, 6, 6), (0, 7, 7), (1, 8, 8), (1, 14, 14)]"]
  show ?thesis by (simp only:) (simp add: debounce_init_def)
qed

text \<open>
  C28: the scenario of the specification.  Starting from the
  class-level initial state at time \<open>t0\<close>, samples with 1, 1, 0, 0 and 1 faces, all
  classified within five seconds of \<open>t0\<close>, give events exactly at indices 2
  (\<open>not_detected\<close>, CRITICAL) and 4 (\<open>detected\<close>, INFO).
\<close>

theorem debounce_scenario:
  assumes "\<forall>(n, t1, t2) \<in> set xs. t1 \<le> t0 + 5 \<and> t0 \<le> t2"
    and "map fst xs = [1, 1, 0, 0, 1]"
  shows "debounce_run (debounce_init t0) xs = [None, None, Some (classify 0), None, Some (classify 1)]"
proof -
  from assms(2) obtain a1 b1 a2 b2 a3 b3 a4 b4 a5 b5 where
    xs: "xs = [(1, a1, b1), (1, a2, b2), (0, a3, b3), (0, a4, b4), (1, a5, b5)]"
    by (auto simp: map_eq_Cons_conv)
  with assms(1) show ?thesis
    by (simp add: debounce_init_def debounce_step_def should_log_def classify_def)
qed

theorem debounce_scenario_witness:
  "debounce_run (debounce_init 0) [(1, 0.1, 0.1), (1, 0.3, 0.3), (0, 0.5, 0.5), (0, 0.7, 0.7), (1, 0.9, 0.9)]
     = [None, None, Some (classify 0), None, Some (classify 1)]"
  by (rule debounce_scenario) simp_all

text \<open>
  C23: the heartbeat needs strictly more than five
  seconds: a steady \<open>detected\<close> sample exactly five seconds after the last emission is
  silent, where the specification (section 6) asks for an emission once the interval has
  elapsed.
\<close>

theorem heartbeat_boundary_silent:
  assumes "last_face_status d = Detected"
  shows "snd (debounce_step d 1 (last_log_time d + 5) t) = None"
  using assms by (simp add: debounce_step_def should_log_def classify_def)

theorem heartbeat_boundary_silent_witness: "snd (debounce_step (debounce_init 0) 1 5 5) = None"
  using heartbeat_boundary_silent [of "debounce_init 0" 5] by (simp add: debounce_init_def)

text \<open>
  C36: the \<open>multiple\<close> message carries the number of faces:
  reading the count back out of the message gives the count the detector returned.
\<close>

theorem multiple_count_roundtrip:
  assumes "1 < n"
  shows "count_of_msg (snd (snd (classify n))) = Some n"
  using assms by (simp add: classify_def multiple_msg_def count_of_msg_def Let_def)

theorem multiple_count_roundtrip_witness: "1 < (3::nat) \<and> count_of_msg (snd (snd (classify 3))) = Some 3"
  using multiple_count_roundtrip [of 3] by simp


end
