(* ===== verification/Camera.thy ===== *)
theory Camera
  imports Debounce
begin

text \<open>
  The camera singleton of \<open>src/camera.py\<close>: the class attributes of \<open>Camera\<close> and
  the module global \<open>frame_count\<close> as one record, the methods \<open>initialize\<close>,
  \<open>get_frame\<close> and \<open>log_event\<close> as functions on it, and the body of the background
  thread \<open>_thread\<close> split as the code is: device opening with its fallback (lines
  55--70), one iteration of the capture loop (lines 80--134), the pacer (lines 124--129),
  the exit (lines 136--137), and the loop itself as recursion over the finite stream of
  observations the environment supplies.

  Everything the thread learns from the outside world enters as an input: whether
  \<open>VideoCapture(0)\<close> and \<open>VideoCapture(1)\<close> opened, and per iteration an \<open>obs\<close>
  record with the result of \<open>camera.read()\<close>, the face count of
  \<open>detectMultiScale\<close>, the result of \<open>imencode\<close> and the clock readings of the
  iteration's \<open>time.time()\<close> calls.  The calls of the registered logging callback are
  the thread's output, recorded in order in the field \<open>calls\<close>.
\<close>

section \<open>State\<close>

text \<open>One call \<open>log_callback(student_id, 'video', level, message)\<close> (line 49).\<close>

record log_call =
  lc_sink :: nat
  lc_student :: string
  lc_type :: string
  lc_level :: log_level
  lc_msg :: string

text \<open>
  The class attributes (lines 19--27) and the global \<open>frame_count\<close> (line 12).  A
  thread object and a callable are represented by a number that identifies them.
  \<open>frame = None\<close> is Python's \<open>None\<close>; \<open>Some []\<close> is \<open>b''\<close>.
\<close>

record cam_state = debounce +
  thread :: "nat option"
  frame :: "bytes option"
  last_access :: time
  log_callback :: "nat option"
  student_id :: "string option"
  frame_count :: nat
  calls :: "log_call list"

text \<open>The state right after import: \<open>t0\<close> is the clock read by \<open>last_log_time = time.time()\<close>.\<close>

definition cam_init :: "time \<Rightarrow> cam_state" where
  "cam_init t0 =
     \<lparr>last_log_time = t0, last_face_status = Detected, thread = None, frame = None,
      last_access = 0, log_callback = None, student_id = None, frame_count = 0, calls = []\<rparr>"

text \<open>Line 11.\<close>

definition DETECTION_FRAME_SKIP :: nat where
  "DETECTION_FRAME_SKIP = 3"

section \<open>The methods called by request threads\<close>

text \<open>
  Lines 29--35.  \<open>tid\<close> identifies the \<open>Thread\<close> object the call would create; the
  second component of the result says whether a background thread was started.
\<close>

definition initialize :: "'a cam_state_scheme \<Rightarrow> string \<Rightarrow> nat \<Rightarrow> nat \<Rightarrow> 'a cam_state_scheme \<times> bool" where
  "initialize s sid cb tid =
     (let s1 = s\<lparr>student_id := Some sid, log_callback := Some cb\<rparr> in
      if thread s1 = None then (s1\<lparr>thread := Some tid\<rparr>, True) else (s1, False))"

text \<open>
  Lines 37--43: the access time is recorded first; then the loop \<open>while Camera.frame is
  None\<close> polls.  The result \<open>None\<close> is "still polling"; a later poll is
  \<open>get_frame_poll\<close>, which reads the attribute again.
\<close>

definition get_frame_poll :: "'a cam_state_scheme \<Rightarrow> bytes option" where
  "get_frame_poll s = frame s"

definition get_frame :: "'a cam_state_scheme \<Rightarrow> time \<Rightarrow> 'a cam_state_scheme \<times> bytes option" where
  "get_frame s now = (let s1 = s\<lparr>last_access := now\<rparr> in (s1, get_frame_poll s1))"

text \<open>
  The whole wait of lines 41--43: the loop polls \<open>Camera.frame\<close>, which the capture
  thread may set between two polls.  \<open>poll k\<close> is what the \<open>k\<close>-th poll reads; the
  first poll reads the attribute as the call found it.  The loop need not end, so it is a
  partial function into \<open>option\<close>: \<open>None\<close> is a reader that waits forever.
\<close>

partial_function (option) wait_frame :: "(nat \<Rightarrow> bytes option) \<Rightarrow> nat \<Rightarrow> bytes option" where
  "wait_frame poll k = (case poll k of Some f \<Rightarrow> Some f | None \<Rightarrow> wait_frame poll (Suc k))"

definition get_frame_blocking :: "'a cam_state_scheme \<Rightarrow> time \<Rightarrow> (nat \<Rightarrow> bytes option) \<Rightarrow> 'a cam_state_scheme \<times> bytes option" where
  "get_frame_blocking s now poll =
     (let s1 = s\<lparr>last_access := now\<rparr> in (s1, wait_frame (\<lambda>k. if k = 0 then frame s1 else poll k) 0))"

text \<open>Lines 45--49: the callback is called only when it is set and the student id is a non-empty string.\<close>

definition log_event :: "'a cam_state_scheme \<Rightarrow> log_level \<Rightarrow> string \<Rightarrow> 'a cam_state_scheme" where
  "log_event s lvl msg =
     (case (log_callback s, student_id s) of
        (Some cb, Some sid) \<Rightarrow>
          if sid \<noteq> [] then
            s\<lparr>calls := calls s @ [\<lparr>lc_sink = cb, lc_student = sid, lc_type = ''video'',
                                   lc_level = lvl, lc_msg = msg\<rparr>]\<rparr>
          else s
      | _ \<Rightarrow> s)"

section \<open>The background thread\<close>

text \<open>
  Lines 55--70: open device 0, after the one-second settling sleep fall back to device 1,
  and when neither opened publish \<open>b''\<close> and return.  The result is the device index
  the loop runs on, or \<open>None\<close> when the thread returned.  On that path the attribute
  \<open>Camera.thread\<close> is left as it is.
\<close>

definition thread_start :: "'a cam_state_scheme \<Rightarrow> bool \<Rightarrow> bool \<Rightarrow> 'a cam_state_scheme \<times> nat option" where
  "thread_start s ok0 ok1 =
     (if ok0 then (s, Some 0) else if ok1 then (s, Some 1) else (s\<lparr>frame := Some []\<rparr>, None))"

text \<open>What the outside world contributes to one iteration of the loop.\<close>

record obs =
  read_ok :: bool
  faces :: nat
  enc_ok :: bool
  jpeg :: bytes
  t_start :: time
  t_check :: time
  t_log :: time
  t_end :: time
  t_idle :: time

text \<open>
  Lines 89--114 on a sampled frame: classify, and when line 111 says so call
  \<open>log_event\<close>, then record the time (a second \<open>time.time()\<close>) and the status.
\<close>

definition detect_log :: "'a cam_state_scheme \<Rightarrow> nat \<Rightarrow> time \<Rightarrow> time \<Rightarrow> 'a cam_state_scheme" where
  "detect_log s n t_chk t_lg =
     (let (st, lvl, msg) = classify n in
      if should_log st s t_chk
      then (log_event s lvl msg)\<lparr>last_log_time := t_lg, last_face_status := st\<rparr>
      else s)"

text \<open>Lines 124--129: the time to sleep so that an iteration lasts at least 1/30 s.\<close>

definition pace_sleep :: "time \<Rightarrow> time \<Rightarrow> time" where
  "pace_sleep t0 t1 = (let sleep_time = 1 / 30 - (t1 - t0) in if sleep_time > 0 then sleep_time else 0)"

text \<open>How an iteration ends: \<open>continue\<close> after a failed read, the next iteration, or \<open>break\<close>.\<close>

datatype loop_ctl = Retry | Next | Stop

text \<open>
  Lines 80--134.  A failed read sleeps and continues before anything else.  Otherwise the
  frame is classified when the counter is a multiple of \<open>DETECTION_FRAME_SKIP\<close>, the
  counter is incremented, the encoded frame is published whatever \<open>imencode\<close>
  reported in \<open>ret\<close>, the pacer sleeps, and the idle test decides.
\<close>

definition iterate :: "'a cam_state_scheme \<Rightarrow> obs \<Rightarrow> 'a cam_state_scheme \<times> loop_ctl" where
  "iterate s ob =
     (if \<not> read_ok ob then (s, Retry)
      else
        let s1 = (if frame_count s mod DETECTION_FRAME_SKIP = 0
                  then detect_log s (faces ob) (t_check ob) (t_log ob) else s);
            s2 = s1\<lparr>frame_count := frame_count s1 + 1\<rparr>;
            s3 = s2\<lparr>frame := Some (jpeg ob)\<rparr>
        in if t_idle ob - last_access s3 > 10 then (s3, Stop) else (s3, Next))"

text \<open>Lines 136--137, after \<open>camera.release()\<close>.\<close>

definition thread_exit :: "'a cam_state_scheme \<Rightarrow> 'a cam_state_scheme" where
  "thread_exit s = s\<lparr>thread := None\<rparr>"

text \<open>
  How a run of the thread over a finite stream of observations ends: the device did not
  open, the loop stopped for inactivity, or the stream ended with the loop still running.
\<close>

datatype worker_end = Device_failed | Idle_exit | Running

fun run_loop :: "'a cam_state_scheme \<Rightarrow> obs list \<Rightarrow> 'a cam_state_scheme \<times> worker_end" where
  "run_loop s [] = (s, Running)"
| "run_loop s (ob # obs) =
     (case iterate s ob of
        (s', Stop) \<Rightarrow> (thread_exit s', Idle_exit)
      | (s', _) \<Rightarrow> run_loop s' obs)"

definition worker :: "'a cam_state_scheme \<Rightarrow> bool \<Rightarrow> bool \<Rightarrow> obs list \<Rightarrow> 'a cam_state_scheme \<times> worker_end" where
  "worker s ok0 ok1 os =
     (case thread_start s ok0 ok1 of
        (s', None) \<Rightarrow> (s', Device_failed)
      | (s', Some d) \<Rightarrow> run_loop s' os)"

section \<open>Abstractions used by the properties\<close>

text \<open>
  Whether \<open>log_event\<close> reaches the callback, and the call it makes; the stream of
  samples the debouncer sees from a stream of observations: every successful read
  advances the frame counter, and those read while it is a multiple of
  \<open>DETECTION_FRAME_SKIP\<close> are classified.
\<close>

definition registered :: "'a cam_state_scheme \<Rightarrow> bool" where
  "registered s \<longleftrightarrow> log_callback s \<noteq> None \<and> student_id s \<noteq> None \<and> student_id s \<noteq> Some []"

definition delivered :: "'a cam_state_scheme \<Rightarrow> log_level \<Rightarrow> string \<Rightarrow> log_call list" where
  "delivered s lvl msg =
     (if registered s then [\<lparr>lc_sink = the (log_callback s), lc_student = the (student_id s),
                           lc_type = ''video'', lc_level = lvl, lc_msg = msg\<rparr>]
      else [])"

abbreviation loop_calls :: "'a cam_state_scheme \<Rightarrow> event list \<Rightarrow> log_call list" where
  "loop_calls s evs \<equiv> concat (map (\<lambda>(st, l, m). delivered s l m) evs)"

fun samples_of :: "nat \<Rightarrow> obs list \<Rightarrow> sample list" where
  "samples_of c [] = []"
| "samples_of c (ob # obs) =
     (if \<not> read_ok ob then samples_of c obs
      else if c mod DETECTION_FRAME_SKIP = 0 then (faces ob, t_check ob, t_log ob) # samples_of (Suc c) obs
      else samples_of (Suc c) obs)"

section \<open>Lemmas on the operations\<close>

lemma log_event_calls:
  "log_event s lvl msg = s\<lparr>calls := calls s @ delivered s lvl msg\<rparr>"
  by (auto simp: log_event_def delivered_def registered_def split: option.splits)

lemma detect_log_debounce:
  "detect_log s n t1 t2 =
     (case debounce_step s n t1 t2 of (s', e) \<Rightarrow>
        s'\<lparr>calls := calls s @ (case e of None \<Rightarrow> [] | Some (st, lvl, msg) \<Rightarrow> delivered s lvl msg)\<rparr>)"
  by (simp add: detect_log_def debounce_step_def log_event_calls split: prod.splits)

lemma detect_log_fields [simp]:
  "thread (detect_log s n t1 t2) = thread s"
  "frame (detect_log s n t1 t2) = frame s"
  "last_access (detect_log s n t1 t2) = last_access s"
  "log_callback (detect_log s n t1 t2) = log_callback s"
  "student_id (detect_log s n t1 t2) = student_id s"
  "frame_count (detect_log s n t1 t2) = frame_count s"
  by (simp_all add: detect_log_def log_event_calls split: prod.splits)

lemma delivered_detect_log [simp]: "delivered (detect_log s n t1 t2) = delivered s"
  by (simp add: delivered_def registered_def fun_eq_iff)

lemma delivered_upd [simp]:
  "delivered (s\<lparr>frame_count := c, frame := f\<rparr>) = delivered s"
  by (simp add: delivered_def registered_def fun_eq_iff)

lemma iterate_Retry: "\<not> read_ok ob \<Longrightarrow> iterate s ob = (s, Retry)"
  by (simp add: iterate_def)

lemma iterate_read:
  "read_ok ob \<Longrightarrow> iterate s ob =
     (let s3 = (if frame_count s mod DETECTION_FRAME_SKIP = 0
                then detect_log s (faces ob) (t_check ob) (t_log ob) else s)
               \<lparr>frame_count := Suc (frame_count s), frame := Some (jpeg ob)\<rparr>
      in (s3, if t_idle ob - last_access s > 10 then Stop else Next))"
  by (simp add: iterate_def Let_def)

lemma iterate_fields [simp]:
  "last_access (fst (iterate s ob)) = last_access s"
  "log_callback (fst (iterate s ob)) = log_callback s"
  "student_id (fst (iterate s ob)) = student_id s"
  "thread (fst (iterate s ob)) = thread s"
  by (simp_all add: iterate_def Let_def)

lemma emitted_calls_Cons:
  "loop_calls s (emitted s ((n, t1, t2) # xs)) =
     (case snd (debounce_step s n t1 t2) of None \<Rightarrow> [] | Some (st, l, m) \<Rightarrow> delivered s l m)
     @ loop_calls s (emitted (fst (debounce_step s n t1 t2)) xs)"
  by (cases "debounce_step s n t1 t2")
     (auto simp: List.map_filter_simps dest: debounce_step_None_state split: option.splits)

lemma length_emitted: "length (emitted d xs) \<le> length xs"
proof -
  have "length (List.map_filter (\<lambda>e. e) ys) \<le> length ys" for ys :: "event option list"
    by (induction ys) (auto simp: List.map_filter_simps split: option.splits)
  then show ?thesis by (metis debounce_run_length)
qed

lemma length_samples_of: "length (samples_of c os) \<le> length os"
  by (induction c os rule: samples_of.induct) auto

section \<open>The capture loop against the debouncer\<close>

text \<open>
  As long as no iteration stops the loop, the loop keeps running, and its debouncer state,
  its calls to the sink and its frame counter are those of the debouncer run over the
  samples it classifies.
\<close>

lemma run_loop_debounce:
  assumes "\<forall>ob \<in> set os. read_ok ob \<longrightarrow> t_idle ob - last_access s \<le> 10"
  shows "snd (run_loop s os) = Running \<and>
    last_log_time (fst (run_loop s os)) = last_log_time (debounce_final s (samples_of (frame_count s) os)) \<and>
    last_face_status (fst (run_loop s os)) = last_face_status (debounce_final s (samples_of (frame_count s) os)) \<and>
    calls (fst (run_loop s os)) = calls s @ loop_calls s (emitted s (samples_of (frame_count s) os)) \<and>
    frame_count (fst (run_loop s os)) = frame_count s + length (filter read_ok os)"
  using assms
proof (induction os arbitrary: s)
  case Nil
  then show ?case by simp
next
  case (Cons ob obs)
  show ?case
  proof (cases "read_ok ob")
    case False
    with Cons show ?thesis by (simp add: iterate_Retry)
  next
    case True
    let ?c = "frame_count s"
    let ?s1 = "if ?c mod DETECTION_FRAME_SKIP = 0 then detect_log s (faces ob) (t_check ob) (t_log ob) else s"
    let ?s3 = "?s1\<lparr>frame_count := Suc ?c, frame := Some (jpeg ob)\<rparr>"
    from True Cons.prems have it: "iterate s ob = (?s3, Next)"
      by (simp add: iterate_read)
    have acc: "last_access ?s3 = last_access s" by simp
    with Cons.prems have "\<forall>ob \<in> set obs. read_ok ob \<longrightarrow> t_idle ob - last_access ?s3 \<le> 10"
      by simp
    note IH = Cons.IH [OF this]
    have run: "run_loop s (ob # obs) = run_loop ?s3 obs" by (simp add: it)
    show ?thesis
    proof (cases "?c mod DETECTION_FRAME_SKIP = 0")
      case due: True
      let ?d = "fst (debounce_step s (faces ob) (t_check ob) (t_log ob))"
      have smp: "samples_of ?c (ob # obs) = (faces ob, t_check ob, t_log ob) # samples_of (Suc ?c) obs"
        using True due by simp
      obtain d' e where st: "debounce_step s (faces ob) (t_check ob) (t_log ob) = (d', e)"
        by (cases "debounce_step s (faces ob) (t_check ob) (t_log ob)") auto
      have f1: "last_log_time ?s3 = last_log_time ?d" "last_face_status ?s3 = last_face_status ?d"
        using due by (simp_all only: st detect_log_debounce) simp_all
      have cl: "calls ?s3 = calls s @ (case snd (debounce_step s (faces ob) (t_check ob) (t_log ob)) of
                   None \<Rightarrow> [] | Some (st, l, m) \<Rightarrow> delivered s l m)"
        using due by (simp add: detect_log_debounce split: prod.splits)
      note cg = debounce_run_cong [OF f1, of "samples_of (Suc ?c) obs"]
      from IH cg cl due show ?thesis
        unfolding run smp emitted_calls_Cons by (simp add: True)
    next
      case skip: False
      have smp: "samples_of ?c (ob # obs) = samples_of (Suc ?c) obs"
        using True skip by simp
      have f1: "last_log_time ?s3 = last_log_time s" "last_face_status ?s3 = last_face_status s"
        using skip by simp_all
      note cg = debounce_run_cong [OF f1, of "samples_of (Suc ?c) obs"]
      from IH cg skip show ?thesis
        unfolding run smp by (simp add: True)
    qed
  qed
qed

lemma run_loop_append:
  "snd (run_loop s os) = Running \<Longrightarrow> run_loop s (os @ xs) = run_loop (fst (run_loop s os)) xs"
proof (induction os arbitrary: s)
  case (Cons x xs')
  then show ?case by (cases "iterate s x"; cases "snd (iterate s x)") auto
qed simp

lemma run_loop_Running_access:
  "snd (run_loop s os) = Running \<Longrightarrow> last_access (fst (run_loop s os)) = last_access s"
proof (induction os arbitrary: s)
  case (Cons x xs')
  obtain a c where it: "iterate s x = (a, c)" by (cases "iterate s x")
  have "last_access a = last_access s" using iterate_fields(1) [of s x] by (simp add: it)
  with Cons it show ?case by (cases c) auto
qed simp


text \<open>The wait ends exactly when some poll sees a frame, with the first frame it sees.\<close>

lemma wait_frame_first:
  "poll (k + i) = Some f \<Longrightarrow> (\<forall>j < i. poll (k + j) = None) \<Longrightarrow> wait_frame poll k = Some f"
proof (induction i arbitrary: k)
  case 0
  then show ?case by (subst wait_frame.simps) simp
next
  case (Suc i)
  have "poll k = None" using Suc.prems(2) [rule_format, of 0] by simp
  moreover have "\<forall>j < i. poll (Suc k + j) = None"
  proof (intro allI impI)
    fix j assume "j < i"
    then have "poll (k + Suc j) = None" using Suc.prems(2) [rule_format, of "Suc j"] by simp
    then show "poll (Suc k + j) = None" by simp
  qed
  then have "wait_frame poll (Suc k) = Some f"
    using Suc.prems(1) by (intro Suc.IH) simp_all
  ultimately show ?case by (subst wait_frame.simps) simp
qed

lemma wait_frame_Some:
  assumes "wait_frame poll k = Some f"
  shows "\<exists>j\<ge>k. poll j = Some f"
proof (rule wait_frame.raw_induct [where P = "\<lambda>poll k f. \<exists>j\<ge>k. poll j = Some f", OF _ assms])
  fix w :: "(nat \<Rightarrow> bytes option) \<Rightarrow> nat \<Rightarrow> bytes option" and p k' g
  assume IH: "\<And>p' k'' y. w p' k'' = Some y \<Longrightarrow> \<exists>j\<ge>k''. p' j = Some y"
    and e: "(case p k' of None \<Rightarrow> w p (Suc k') | Some f \<Rightarrow> Some f) = Some g"
  show "\<exists>j\<ge>k'. p j = Some g"
  proof (cases "p k'")
    case None
    with e IH [of p "Suc k'" g] obtain j where "Suc k' \<le> j" "p j = Some g" by auto
    then show ?thesis by (auto dest: Suc_leD)
  next
    case (Some h)
    with e show ?thesis by auto
  qed
qed

lemma wait_frame_None: "\<forall>j\<ge>k. poll j = None \<Longrightarrow> wait_frame poll k = None"
  by (cases "wait_frame poll k") (auto dest: wait_frame_Some)

lemma wait_frame_returns: "(\<exists>f. wait_frame poll k = Some f) \<longleftrightarrow> (\<exists>j\<ge>k. poll j \<noteq> None)"
proof
  assume "\<exists>f. wait_frame poll k = Some f"
  then obtain f where "wait_frame poll k = Some f" by blast
  from wait_frame_Some [OF this] show "\<exists>j\<ge>k. poll j \<noteq> None" by auto
next
  assume "\<exists>j\<ge>k. poll j \<noteq> None"
  then obtain i0 where "poll (k + i0) \<noteq> None" by (metis le_add_diff_inverse)
  define i where "i = (LEAST i. poll (k + i) \<noteq> None)"
  have i: "poll (k + i) \<noteq> None" unfolding i_def by (rule LeastI [of _ i0]) fact
  have "\<forall>j < i. poll (k + j) = None" unfolding i_def using not_less_Least by blast
  with i show "\<exists>f. wait_frame poll k = Some f" by (auto intro: wait_frame_first)
qed

section \<open>Properties of the worker\<close>

text \<open>
  C1: the capture loop implements the debouncer on every
  third successfully read frame: while no iteration hits the idle timeout, the loop keeps
  running, its last-emission time and last status are those the debouncer reaches on the
  sampled frames, the sink receives exactly the debouncer's events (when a callback and a
  non-empty student id are registered), and the frame counter advances once per
  successful read.
\<close>

theorem loop_refines_debouncer:
  assumes "\<forall>ob \<in> set os. read_ok ob \<longrightarrow> t_idle ob - last_access s \<le> 10"
  shows "snd (run_loop s os) = Running \<and>
    last_log_time (fst (run_loop s os)) = last_log_time (debounce_final s (samples_of (frame_count s) os)) \<and>
    last_face_status (fst (run_loop s os)) = last_face_status (debounce_final s (samples_of (frame_count s) os)) \<and>
    calls (fst (run_loop s os)) = calls s @ loop_calls s (emitted s (samples_of (frame_count s) os)) \<and>
    frame_count (fst (run_loop s os)) = frame_count s + length (filter read_ok os)"
  using assms by (rule run_loop_debounce)

theorem loop_refines_debouncer_witness:
  "calls (fst (run_loop ((cam_init 0)\<lparr>log_callback := Some 0, student_id := Some ''s''\<rparr>)
     [\<lparr>read_ok = True, faces = 0, enc_ok = True, jpeg = [1], t_start = 1, t_check = 1,
       t_log = 1, t_end = 1, t_idle = 1\<rparr>])) =
   [\<lparr>lc_sink = 0, lc_student = ''s'', lc_type = ''video'', lc_level = CRITICAL,
     lc_msg = ''User Face NOT DETECTED (out of frame/covered).''\<rparr>]"
proof -
  let ?s = "(cam_init 0)\<lparr>log_callback := Some 0, student_id := Some ''s''\<rparr>"
  let ?os = "[\<lparr>read_ok = True, faces = 0, enc_ok = True, jpeg = [1 :: 8 word], t_start = 1 :: real,
              t_check = 1, t_log = 1, t_end = 1, t_idle = 1\<rparr>]"
  have h: "\<forall>ob \<in> set ?os. read_ok ob \<longrightarrow> t_idle ob - last_access ?s \<le> 10"
    by (simp add: cam_init_def)
  from loop_refines_debouncer [OF h] show ?thesis
    by (simp add: h cam_init_def DETECTION_FRAME_SKIP_def debounce_step_def should_log_def
        classify_def delivered_def registered_def)
qed

text \<open>
  C17: publication is last-writer-wins: while the loop runs,
  \<open>Camera.frame\<close> is the buffer of the last successfully read frame, and stays as it
  was when no read succeeded.
\<close>

theorem run_loop_publishes_latest:
  assumes "\<forall>ob \<in> set os. read_ok ob \<longrightarrow> t_idle ob - last_access s \<le> 10"
  shows "frame (fst (run_loop s os)) =
           (if filter read_ok os = [] then frame s else Some (jpeg (last (filter read_ok os))))"
  using assms
proof (induction os arbitrary: s)
  case Nil
  then show ?case by simp
next
  case (Cons ob obs)
  show ?case
  proof (cases "read_ok ob")
    case False
    with Cons show ?thesis by (simp add: iterate_Retry)
  next
    case True
    obtain s' where it: "iterate s ob = (s', Next)" and fr: "frame s' = Some (jpeg ob)"
      and acc: "last_access s' = last_access s"
      using True Cons.prems by (simp add: iterate_read Let_def)
    have "\<forall>x \<in> set obs. read_ok x \<longrightarrow> t_idle x - last_access s' \<le> 10" using Cons.prems acc by simp
    from Cons.IH [OF this] it fr True show ?thesis by simp
  qed
qed

theorem run_loop_publishes_latest_witness:
  "frame (fst (run_loop (cam_init 0)
     [\<lparr>read_ok = True, faces = 1, enc_ok = True, jpeg = [1], t_start = 1, t_check = 1, t_log = 1, t_end = 1, t_idle = 1\<rparr>,
      \<lparr>read_ok = False, faces = 0, enc_ok = False, jpeg = [9], t_start = 2, t_check = 2, t_log = 2, t_end = 2, t_idle = 2\<rparr>,
      \<lparr>read_ok = True, faces = 1, enc_ok = True, jpeg = [2], t_start = 3, t_check = 3, t_log = 3, t_end = 3, t_idle = 3\<rparr>])) = Some [2]"
proof -
  let ?os = "[\<lparr>read_ok = True, faces = 1, enc_ok = True, jpeg = [1 :: 8 word], t_start = 1 :: real, t_check = 1, t_log = 1, t_end = 1, t_idle = 1\<rparr>,
      \<lparr>read_ok = False, faces = 0, enc_ok = False, jpeg = [9], t_start = 2, t_check = 2, t_log = 2, t_end = 2, t_idle = 2\<rparr>,
      \<lparr>read_ok = True, faces = 1, enc_ok = True, jpeg = [2], t_start = 3, t_check = 3, t_log = 3, t_end = 3, t_idle = 3\<rparr>]"
  have h: "\<forall>ob \<in> set ?os. read_ok ob \<longrightarrow> t_idle ob - last_access (cam_init 0) \<le> 10"
    by (simp add: cam_init_def)
  from run_loop_publishes_latest [OF h] show ?thesis by simp
qed

text \<open>
  C5: a second \<open>initialize\<close> never starts a second
  background thread and leaves \<open>Camera.thread\<close> as the first call set it, whatever the
  state before the first call.
\<close>

theorem initialize_idempotent:
  "\<not> snd (initialize (fst (initialize s sid cb tid)) sid' cb' tid') \<and>
   thread (fst (initialize (fst (initialize s sid cb tid)) sid' cb' tid')) = thread (fst (initialize s sid cb tid))"
  by (simp add: initialize_def Let_def)

text \<open>
  C18: when neither camera index opens, the thread
  started by \<open>initialize\<close> publishes \<open>b''\<close> and returns without logging, and
  \<open>get_frame\<close> then returns the empty buffer.  But \<open>Camera.thread\<close> keeps the dead
  thread, so no later \<open>initialize\<close> starts a new attempt.
\<close>

theorem device_failure_blocks_restart:
  assumes "thread s = None"
  shows "snd (initialize s sid cb tid) \<and>
    worker (fst (initialize s sid cb tid)) False False os =
      ((fst (initialize s sid cb tid))\<lparr>frame := Some []\<rparr>, Device_failed) \<and>
    thread (fst (worker (fst (initialize s sid cb tid)) False False os)) = Some tid \<and>
    snd (get_frame (fst (worker (fst (initialize s sid cb tid)) False False os)) now) = Some [] \<and>
    calls (fst (worker (fst (initialize s sid cb tid)) False False os)) = calls s \<and>
    \<not> snd (initialize (fst (worker (fst (initialize s sid cb tid)) False False os)) sid' cb' tid')"
  using assms by (simp add: initialize_def worker_def thread_start_def get_frame_def get_frame_poll_def Let_def)

theorem device_failure_blocks_restart_witness:
  "thread (cam_init 0) = None \<and>
   \<not> snd (initialize (fst (worker (fst (initialize (cam_init 0) ''student_101'' 0 1)) False False [])) ''student_101'' 0 2)"
proof -
  have h: "thread (cam_init 0) = None" by (simp add: cam_init_def)
  from device_failure_blocks_restart [OF h, of "''student_101''" 0 1 "[]" 0 "''student_101''" 0 2]
  show ?thesis using h by blast
qed

text \<open>
  C12: the loop stops for inactivity: if some successful read in
  the stream happens more than ten seconds after the last \<open>get_frame\<close>, the loop exits
  through the idle path and clears \<open>Camera.thread\<close>, so that a later
  \<open>initialize\<close> starts a new thread.
\<close>

theorem run_loop_idle_exit:
  assumes "ob \<in> set os" and "read_ok ob" and "t_idle ob - last_access s > 10"
  shows "snd (run_loop s os) = Idle_exit \<and> thread (fst (run_loop s os)) = None"
  using assms
proof (induction os arbitrary: s)
  case Nil
  then show ?case by simp
next
  case (Cons x xs)
  show ?case
  proof (cases "snd (iterate s x) = Stop")
    case True
    then show ?thesis by (cases "iterate s x") (simp add: thread_exit_def)
  next
    case False
    then have "ob \<noteq> x" using Cons.prems by (auto simp: iterate_read)
    with Cons.prems have "ob \<in> set xs" by simp
    from Cons.IH [OF this Cons.prems(2)] Cons.prems(3) have
      "snd (run_loop (fst (iterate s x)) xs) = Idle_exit \<and> thread (fst (run_loop (fst (iterate s x)) xs)) = None"
      by simp
    with False show ?thesis by (cases "iterate s x"; cases "snd (iterate s x)") auto
  qed
qed

theorem run_loop_idle_exit_witness:
  "snd (run_loop ((cam_init 0)\<lparr>thread := Some 1\<rparr>)
     [\<lparr>read_ok = True, faces = 1, enc_ok = True, jpeg = [1], t_start = 20, t_check = 20,
       t_log = 20, t_end = 20, t_idle = 20\<rparr>]) = Idle_exit"
proof -
  let ?ob = "\<lparr>read_ok = True, faces = 1, enc_ok = True, jpeg = [1 :: 8 word], t_start = 20 :: real,
              t_check = 20, t_log = 20, t_end = 20, t_idle = 20\<rparr>"
  have "?ob \<in> set [?ob]" and "read_ok ?ob"
    and "t_idle ?ob - last_access ((cam_init 0)\<lparr>thread := Some 1\<rparr>) > 10"
    by (simp_all add: cam_init_def)
  from run_loop_idle_exit [OF this] show ?thesis by simp
qed

text \<open>
  C20: \<open>get_frame\<close> returns exactly when a frame is
  there: at once when \<open>Camera.frame\<close> is already set, and otherwise as soon as some
  later poll sees one; when none ever does, the reader waits forever.
\<close>

theorem get_frame_blocking_returns:
  "(\<exists>f. snd (get_frame_blocking s now poll) = Some f) \<longleftrightarrow> frame s \<noteq> None \<or> (\<exists>j>0. poll j \<noteq> None)"
  unfolding get_frame_blocking_def Let_def snd_conv wait_frame_returns
  by (auto simp: gr0_conv_Suc split: if_splits)

theorem get_frame_blocking_returns_witness:
  "\<exists>f. snd (get_frame_blocking (cam_init 0) 5 (\<lambda>k. if k = 2 then Some [1] else None)) = Some f"
  using get_frame_blocking_returns [of "cam_init 0" 5 "\<lambda>k. if k = 2 then Some [1] else None"]
  by auto

text \<open>
  C21: the module-level \<open>frame_count\<close> survives a
  restart.  When a run stops for inactivity at a successful read, a later
  \<open>initialize\<close> starts a new thread whose counter is the old one plus every frame the
  stopped run read, so the new thread classifies its first frame only when that number
  is a multiple of \<open>DETECTION_FRAME_SKIP\<close> (the specification asks for a reset on
  every start).
\<close>

theorem restart_inherits_frame_count:
  assumes "\<forall>x \<in> set os. read_ok x \<longrightarrow> t_idle x - last_access s \<le> 10"
    and "read_ok ob" and "t_idle ob - last_access s > 10"
  shows "snd (run_loop s (os @ ob # rest)) = Idle_exit \<and>
         snd (initialize (fst (run_loop s (os @ ob # rest))) sid cb tid) \<and>
         frame_count (fst (initialize (fst (run_loop s (os @ ob # rest))) sid cb tid)) =
           frame_count s + length (filter read_ok os) + 1"
proof -
  let ?r = "run_loop s os"
  from run_loop_debounce [OF assms(1)] have run: "snd ?r = Running"
    and fc: "frame_count (fst ?r) = frame_count s + length (filter read_ok os)" by blast+
  have acc: "last_access (fst ?r) = last_access s" using run by (rule run_loop_Running_access)
  have it: "snd (iterate (fst ?r) ob) = Stop" "frame_count (fst (iterate (fst ?r) ob)) = Suc (frame_count (fst ?r))"
    using assms(2,3) acc by (simp_all add: iterate_read Let_def)
  obtain s3 where s3: "iterate (fst ?r) ob = (s3, Stop)" using it(1) by (cases "iterate (fst ?r) ob") simp
  have eq: "run_loop s (os @ ob # rest) = (thread_exit (fst (iterate (fst ?r) ob)), Idle_exit)"
    by (simp add: run_loop_append [OF run] s3)
  show ?thesis
    using it(2) fc by (simp add: eq thread_exit_def initialize_def Let_def)
qed

theorem restart_inherits_frame_count_witness:
  "snd (initialize (fst (run_loop ((cam_init 0)\<lparr>thread := Some 1\<rparr>)
       [\<lparr>read_ok = True, faces = 1, enc_ok = True, jpeg = [1], t_start = 20, t_check = 20,
         t_log = 20, t_end = 20, t_idle = 20\<rparr>])) ''student_101'' 0 2) \<and>
   frame_count (fst (initialize (fst (run_loop ((cam_init 0)\<lparr>thread := Some 1\<rparr>)
       [\<lparr>read_ok = True, faces = 1, enc_ok = True, jpeg = [1], t_start = 20, t_check = 20,
         t_log = 20, t_end = 20, t_idle = 20\<rparr>])) ''student_101'' 0 2)) = 1"
proof -
  let ?ob = "\<lparr>read_ok = True, faces = 1, enc_ok = True, jpeg = [1 :: 8 word], t_start = 20 :: real,
              t_check = 20, t_log = 20, t_end = 20, t_idle = 20\<rparr>"
  let ?s = "(cam_init 0)\<lparr>thread := Some 1\<rparr>"
  have "\<forall>x \<in> set []. read_ok x \<longrightarrow> t_idle x - last_access ?s \<le> 10" and "read_ok ?ob"
    and "t_idle ?ob - last_access ?s > 10"
    by (simp_all add: cam_init_def)
  from restart_inherits_frame_count [OF this, of "[]" "''student_101''" 0 2] show ?thesis
    by (simp add: cam_init_def)
qed

text \<open>
  C29: a stream of failed reads keeps the thread in its
  retry loop with the state untouched: the idle test is never reached, so the thread does
  not stop however long no reader has called \<open>get_frame\<close>.
\<close>

theorem read_failures_never_exit:
  "list_all (\<lambda>ob. \<not> read_ok ob) os \<Longrightarrow> run_loop s os = (s, Running)"
  by (induction os) (simp_all add: iterate_Retry)

theorem read_failures_never_exit_witness:
  "run_loop (cam_init 0)
     [\<lparr>read_ok = False, faces = 0, enc_ok = False, jpeg = [], t_start = 100, t_check = 0,
       t_log = 0, t_end = 0, t_idle = 0\<rparr>] = (cam_init 0, Running)"
  by (rule read_failures_never_exit) simp

text \<open>
  C30: the pacer sleeps between 0 and 1/30 s, and an iteration that
  started at \<open>t0\<close> and finished its work at \<open>t1\<close> ends at \<open>max t1 (t0 + 1/30)\<close>:
  it lasts at least the target interval, and after an overrun it does not sleep at all
  (no catch-up).
\<close>

theorem pacer_bounds:
  assumes "t0 \<le> t1"
  shows "0 \<le> pace_sleep t0 t1 \<and> pace_sleep t0 t1 \<le> 1 / 30 \<and> t1 + pace_sleep t0 t1 = max t1 (t0 + 1 / 30)"
  using assms by (simp add: pace_sleep_def Let_def)

theorem pacer_bounds_witness:
  "(0::real) \<le> 1 / 60 \<and> 1 / 60 + pace_sleep 0 (1 / 60) = 1 / 30"
  using pacer_bounds [of 0 "1 / 60"] by simp

text \<open>
  C31: the flag \<open>ret\<close> of \<open>cv2.imencode\<close> is not checked:
  after a successful read the buffer it returned is published even when encoding reported
  failure.
\<close>

theorem encode_result_ignored:
  "read_ok ob \<Longrightarrow> \<not> enc_ok ob \<Longrightarrow> frame (fst (iterate s ob)) = Some (jpeg ob)"
  by (simp add: iterate_read Let_def)

theorem encode_result_ignored_witness:
  "frame (fst (iterate (cam_init 0)
     \<lparr>read_ok = True, faces = 1, enc_ok = False, jpeg = [7], t_start = 0, t_check = 0,
      t_log = 0, t_end = 0, t_idle = 0\<rparr>)) = Some [7]"
  using encode_result_ignored [of "\<lparr>read_ok = True, faces = 1, enc_ok = False, jpeg = [7], t_start = 0,
    t_check = 0, t_log = 0, t_end = 0, t_idle = 0\<rparr>" "cam_init 0"] by simp

end
