(* ===== verification/Worker_Sys.thy ===== *)
theory Worker_Sys
  imports Camera
begin

text \<open>
  The camera singleton under concurrency.  Request threads (Flask serves each request on
  its own thread) call \<open>initialize\<close> and \<open>get_frame\<close>; background threads run
  \<open>_thread\<close>.  Python can switch threads between any two bytecodes, so the model
  splits the code where a switch changes the outcome:
  \<^item> \<open>initialize\<close> (lines 29--35) is two steps: the assignments and the test
    \<open>Camera.thread is None\<close> (lines 31--33), then the creation and start of the thread
    (lines 34--35).  A request between the two is \<open>pending\<close>;
  \<^item> \<open>_thread\<close> is the sequence: open the device (lines 55--70), loop iterations (lines
    80--134, one step each, as \<open>Camera.iterate\<close>), \<open>camera.release()\<close> (line 136),
    \<open>Camera.thread = None\<close> (line 137);
  \<^item> \<open>get_frame\<close> records the access time (line 39); its polling reads change nothing.
  The step relation is an \<open>inductive\<close> predicate with one rule per step; which thread
  moves is not determined.  Its parameter \<open>serial\<close> restricts the runs to those where
  no two \<open>initialize\<close> calls overlap (a test happens only when no request is pending);
  with \<open>serial = False\<close> every interleaving is allowed.
\<close>

section \<open>State\<close>

text \<open>Where a background thread is in \<open>_thread\<close>.\<close>

datatype wpc =
    W_Open              \<comment> \<open>started, before the device is opened\<close>
  | W_Loop nat          \<comment> \<open>in the capture loop, holding device \<open>d\<close>\<close>
  | W_Release nat       \<comment> \<open>after \<open>break\<close>, before \<open>camera.release()\<close>\<close>
  | W_Clear             \<comment> \<open>after the release, before \<open>Camera.thread = None\<close>\<close>
  | W_Done              \<comment> \<open>returned\<close>

record sys =
  cam :: cam_state
  workers :: "nat \<rightharpoonup> wpc"
  pending :: "nat set"
  next_tid :: nat

definition sys_init :: "time \<Rightarrow> sys" where
  "sys_init t0 = \<lparr>cam = cam_init t0, workers = Map.empty, pending = {}, next_tid = 0\<rparr>"

text \<open>A thread that has started and not yet returned: it owns the loop (and, in the loop, the device).\<close>

fun live_pc :: "wpc option \<Rightarrow> bool" where
  "live_pc None = False"
| "live_pc (Some W_Done) = False"
| "live_pc (Some _) = True"

definition live :: "sys \<Rightarrow> nat \<Rightarrow> bool" where
  "live s t \<longleftrightarrow> live_pc (workers s t)"

section \<open>Steps\<close>

inductive sys_step :: "bool \<Rightarrow> sys \<Rightarrow> sys \<Rightarrow> bool" for serial :: bool where
  init_test:
    "r \<notin> pending s \<Longrightarrow> (serial \<longrightarrow> pending s = {}) \<Longrightarrow>
     c = (cam s)\<lparr>student_id := Some sid, log_callback := Some cb\<rparr> \<Longrightarrow>
     sys_step serial s (if thread c = None then s\<lparr>cam := c, pending := insert r (pending s)\<rparr>
                        else s\<lparr>cam := c\<rparr>)"
| init_spawn:
    "r \<in> pending s \<Longrightarrow>
     sys_step serial s (s\<lparr>cam := (cam s)\<lparr>thread := Some (next_tid s)\<rparr>,
                          workers := (workers s)(next_tid s \<mapsto> W_Open),
                          pending := pending s - {r}, next_tid := Suc (next_tid s)\<rparr>)"
| open_ok:
    "workers s t = Some W_Open \<Longrightarrow> thread_start (cam s) ok0 ok1 = (c, Some d) \<Longrightarrow>
     sys_step serial s (s\<lparr>cam := c, workers := (workers s)(t \<mapsto> W_Loop d)\<rparr>)"
| open_fail:
    "workers s t = Some W_Open \<Longrightarrow> thread_start (cam s) False False = (c, None) \<Longrightarrow>
     sys_step serial s (s\<lparr>cam := c, workers := (workers s)(t \<mapsto> W_Done)\<rparr>)"
| loop_next:
    "workers s t = Some (W_Loop d) \<Longrightarrow> iterate (cam s) ob = (c, ctl) \<Longrightarrow> ctl \<noteq> Stop \<Longrightarrow>
     sys_step serial s (s\<lparr>cam := c\<rparr>)"
| loop_stop:
    "workers s t = Some (W_Loop d) \<Longrightarrow> iterate (cam s) ob = (c, Stop) \<Longrightarrow>
     sys_step serial s (s\<lparr>cam := c, workers := (workers s)(t \<mapsto> W_Release d)\<rparr>)"
| release:
    "workers s t = Some (W_Release d) \<Longrightarrow>
     sys_step serial s (s\<lparr>workers := (workers s)(t \<mapsto> W_Clear)\<rparr>)"
| clear:
    "workers s t = Some W_Clear \<Longrightarrow>
     sys_step serial s (s\<lparr>cam := thread_exit (cam s), workers := (workers s)(t \<mapsto> W_Done)\<rparr>)"
| read_frame:
    "sys_step serial s (s\<lparr>cam := fst (get_frame (cam s) now)\<rparr>)"

inductive reach :: "bool \<Rightarrow> time \<Rightarrow> sys \<Rightarrow> bool" for serial :: bool and t0 :: time where
  reach_init: "reach serial t0 (sys_init t0)"
| reach_step: "reach serial t0 s \<Longrightarrow> sys_step serial s s' \<Longrightarrow> reach serial t0 s'"

section \<open>The singleton invariant\<close>

text \<open>
  Thread ids are fresh; every live thread is the one \<open>Camera.thread\<close> names; while a
  request is pending, \<open>Camera.thread\<close> is \<open>None\<close>; at most one request is pending.
\<close>

definition sys_inv :: "sys \<Rightarrow> bool" where
  "sys_inv s \<longleftrightarrow>
     (\<forall>t. next_tid s \<le> t \<longrightarrow> workers s t = None) \<and>
     (\<forall>t. live s t \<longrightarrow> thread (cam s) = Some t) \<and>
     (pending s \<noteq> {} \<longrightarrow> thread (cam s) = None) \<and>
     (\<forall>r r'. r \<in> pending s \<longrightarrow> r' \<in> pending s \<longrightarrow> r = r')"

text \<open>The state right after one \<open>initialize\<close> from the import state has started its thread.\<close>

definition demo_started :: sys where
  "demo_started =
     \<lparr>cam = (cam_init 0)\<lparr>student_id := Some ''student_101'', log_callback := Some 0, thread := Some 0\<rparr>,
      workers = [0 \<mapsto> W_Open], pending = {}, next_tid = 1\<rparr>"

text \<open>
  The state in which the thread started by that call has stopped for inactivity, published
  its last frame, released the device and not yet cleared \<open>Camera.thread\<close>; and the
  program points of that teardown.
\<close>

definition demo_tearing :: sys where
  "demo_tearing =
     \<lparr>cam = (cam_init 0)\<lparr>student_id := Some ''student_101'', log_callback := Some 0, thread := Some 0,
                          frame_count := 1, frame := Some [1]\<rparr>,
      workers = [0 \<mapsto> W_Clear], pending = {}, next_tid = 1\<rparr>"


fun tearing :: "wpc option \<Rightarrow> bool" where
  "tearing (Some (W_Release d)) = True"
| "tearing (Some W_Clear) = True"
| "tearing _ = False"

section \<open>Each step keeps the invariant\<close>

lemma sys_inv_init: "sys_inv (sys_init t0)"
  by (simp add: sys_inv_def sys_init_def cam_init_def live_def)

lemma thread_start_thread [simp]: "thread (fst (thread_start c ok0 ok1)) = thread c"
  by (simp add: thread_start_def)

lemma live_cam [simp]: "live (s\<lparr>cam := c\<rparr>) = live s"
  by (simp add: live_def fun_eq_iff)

lemma sys_inv_cam:
  "sys_inv s \<Longrightarrow> thread c = thread (cam s) \<Longrightarrow> sys_inv (s\<lparr>cam := c\<rparr>)"
  by (simp add: sys_inv_def)

lemma sys_inv_owner:
  assumes inv: "sys_inv s" and w: "live s t"
  shows "thread (cam s) = Some t \<and> pending s = {} \<and> (\<forall>u. live s u \<longrightarrow> u = t)"
proof -
  from inv w have own: "thread (cam s) = Some t" by (simp add: sys_inv_def)
  moreover from inv own have "pending s = {}" by (auto simp: sys_inv_def)
  moreover have "u = t" if "live s u" for u
  proof -
    from inv that have "thread (cam s) = Some u" by (simp add: sys_inv_def)
    with own show ?thesis by simp
  qed
  ultimately show ?thesis by blast
qed

lemma sys_inv_fresh: "sys_inv s \<Longrightarrow> live s t \<Longrightarrow> t < next_tid s"
  unfolding sys_inv_def live_def by (metis live_pc.simps(1) not_less)

text \<open>A live thread moving to another point of its body, the camera state changing with it.\<close>

lemma sys_inv_move:
  assumes inv: "sys_inv s" and w: "live s t" and p: "live_pc (Some p)"
    and th: "thread c = thread (cam s)"
  shows "sys_inv (s\<lparr>cam := c, workers := (workers s)(t \<mapsto> p)\<rparr>)"
proof -
  from sys_inv_owner [OF inv w] have own: "thread (cam s) = Some t" and pend: "pending s = {}"
    and only: "\<And>u. live s u \<Longrightarrow> u = t" by auto
  have "t < next_tid s" using sys_inv_fresh [OF inv w] .
  then have fresh: "next_tid s \<le> u \<Longrightarrow> ((workers s)(t \<mapsto> p)) u = None" for u
    using inv by (simp add: sys_inv_def)
  have lv: "live (s\<lparr>cam := c, workers := (workers s)(t \<mapsto> p)\<rparr>) u \<Longrightarrow> u = t" for u
    using only [of u] by (auto simp: live_def split: if_splits)
  show ?thesis unfolding sys_inv_def
    using fresh lv own th pend by auto
qed

lemma sys_inv_finish:
  assumes inv: "sys_inv s" and w: "live s t"
  shows "sys_inv (s\<lparr>cam := c, workers := (workers s)(t \<mapsto> W_Done)\<rparr>)"
proof -
  from sys_inv_owner [OF inv w] have pend: "pending s = {}" and only: "\<And>u. live s u \<Longrightarrow> u = t"
    by auto
  have "t < next_tid s" using sys_inv_fresh [OF inv w] .
  then have fresh: "next_tid s \<le> u \<Longrightarrow> ((workers s)(t \<mapsto> W_Done)) u = None" for u
    using inv by (simp add: sys_inv_def)
  have nolive: "\<not> live (s\<lparr>cam := c, workers := (workers s)(t \<mapsto> W_Done)\<rparr>) u" for u
    using only [of u] by (auto simp: live_def)
  show ?thesis unfolding sys_inv_def
    using fresh nolive pend by simp
qed

lemma sys_inv_spawn:
  assumes inv: "sys_inv s" and r: "r \<in> pending s"
  shows "sys_inv (s\<lparr>cam := (cam s)\<lparr>thread := Some (next_tid s)\<rparr>,
                      workers := (workers s)(next_tid s \<mapsto> W_Open),
                      pending := pending s - {r}, next_tid := Suc (next_tid s)\<rparr>)"
    (is "sys_inv ?s")
proof -
  from inv r have nolive: "\<And>t. \<not> live s t" and single: "pending s - {r} = {}"
    and fresh: "\<And>t. next_tid s \<le> t \<Longrightarrow> workers s t = None"
    by (auto simp: sys_inv_def)
  show ?thesis unfolding sys_inv_def
  proof (intro conjI allI impI)
    fix t assume "next_tid ?s \<le> t"
    then show "workers ?s t = None" using fresh by simp
  next
    fix t assume "live ?s t"
    then have "t = next_tid s" using nolive [of t] by (auto simp: live_def split: if_splits)
    then show "thread (cam ?s) = Some t" by simp
  next
    assume "pending ?s \<noteq> {}"
    then show "thread (cam ?s) = None" using single by simp
  next
    fix r1 r2 assume "r1 \<in> pending ?s"
    then show "r1 = r2" using single by simp
  qed
qed

lemma sys_inv_init_test:
  assumes inv: "sys_inv s" and ser: "pending s = {}" and th: "thread c = thread (cam s)"
  shows "sys_inv (if thread c = None then s\<lparr>cam := c, pending := insert r (pending s)\<rparr>
                  else s\<lparr>cam := c\<rparr>)"
proof (cases "thread c = None")
  case True
  with inv th have "\<not> live s t" for t by (auto simp: sys_inv_def)
  with True inv ser th show ?thesis by (simp add: sys_inv_def live_def)
next
  case False
  show ?thesis unfolding if_not_P [OF False] by (rule sys_inv_cam [OF inv th])
qed

lemma sys_step_inv:
  assumes "sys_step True s s'" and "sys_inv s"
  shows "sys_inv s'"
  using assms
proof (induction rule: sys_step.induct)
  case (init_test r s c sid cb)
  then show ?case by (intro sys_inv_init_test) simp_all
next
  case (init_spawn r s)
  show ?case by (rule sys_inv_spawn [OF init_spawn.prems init_spawn.hyps])
next
  case (open_ok s t ok0 ok1 c d)
  have "live s t" using open_ok.hyps(1) by (simp add: live_def)
  moreover have "thread c = thread (cam s)" using open_ok.hyps(2) thread_start_thread [of "cam s" ok0 ok1] by simp
  ultimately show ?case using sys_inv_move [OF open_ok.prems] by simp
next
  case (open_fail s t c)
  have "live s t" using open_fail.hyps(1) by (simp add: live_def)
  then show ?case by (rule sys_inv_finish [OF open_fail.prems])
next
  case (loop_next s t d ob c ctl)
  then have "thread c = thread (cam s)" using iterate_fields(4) [of "cam s" ob] by simp
  with loop_next.prems show ?case by (rule sys_inv_cam)
next
  case (loop_stop s t d ob c)
  have "live s t" using loop_stop.hyps(1) by (simp add: live_def)
  moreover have "thread c = thread (cam s)" using loop_stop.hyps(2) iterate_fields(4) [of "cam s" ob] by simp
  ultimately show ?case using sys_inv_move [OF loop_stop.prems] by simp
next
  case (release s t d)
  have "live s t" using release.hyps(1) by (simp add: live_def)
  then show ?case using sys_inv_move [OF release.prems, of t W_Clear "cam s"] by simp
next
  case (clear s t)
  have "live s t" using clear.hyps(1) by (simp add: live_def)
  then show ?case by (rule sys_inv_finish [OF clear.prems])
next
  case (read_frame s now)
  then show ?case by (rule sys_inv_cam) (simp add: get_frame_def Let_def)
qed


section \<open>Reachable states\<close>

lemma reach_inv: "reach True t0 s \<Longrightarrow> sys_inv s"
proof (induction rule: reach.induct)
  case reach_init
  then show ?case by (rule sys_inv_init)
next
  case (reach_step s s')
  then show ?case using sys_step_inv by blast
qed

text \<open>
  C3: when no two \<open>initialize\<close> calls overlap, every reachable
  state has at most one live background thread (one loop, one device handle), and it is
  the thread \<open>Camera.thread\<close> names.
\<close>

theorem serial_singleton:
  assumes "reach True t0 s" and "live s t" and "live s u"
  shows "u = t \<and> thread (cam s) = Some t"
  using sys_inv_owner [OF reach_inv [OF assms(1)] assms(2)] assms(3) by blast

lemma reach_demo_started: "reach True 0 demo_started"
proof -
  let ?c = "(cam (sys_init 0))\<lparr>student_id := Some ''student_101'', log_callback := Some 0\<rparr>"
  let ?s1 = "(sys_init 0)\<lparr>cam := ?c, pending := insert 0 (pending (sys_init 0))\<rparr>"
  have "sys_step True (sys_init 0)
          (if thread ?c = None then ?s1 else (sys_init 0)\<lparr>cam := ?c\<rparr>)"
    by (rule sys_step.init_test) (simp_all add: sys_init_def)
  then have s1: "reach True 0 ?s1"
    using reach.reach_init reach.reach_step by (fastforce simp: sys_init_def cam_init_def)
  have "sys_step True ?s1 (?s1\<lparr>cam := (cam ?s1)\<lparr>thread := Some (next_tid ?s1)\<rparr>,
          workers := (workers ?s1)(next_tid ?s1 \<mapsto> W_Open),
          pending := pending ?s1 - {0}, next_tid := Suc (next_tid ?s1)\<rparr>)"
    by (rule sys_step.init_spawn) simp
  with s1 have "reach True 0 (?s1\<lparr>cam := (cam ?s1)\<lparr>thread := Some (next_tid ?s1)\<rparr>,
          workers := (workers ?s1)(next_tid ?s1 \<mapsto> W_Open),
          pending := pending ?s1 - {0}, next_tid := Suc (next_tid ?s1)\<rparr>)"
    by (rule reach.reach_step)
  then show ?thesis by (simp add: demo_started_def sys_init_def cam_init_def)
qed

theorem serial_singleton_witness: "thread (cam demo_started) = Some 0"
proof -
  have l: "live demo_started 0" by (simp add: live_def demo_started_def)
  from serial_singleton [OF reach_demo_started l l] show ?thesis by simp
qed

lemma reach_next: "reach serial t0 s \<Longrightarrow> sys_step serial s s' \<Longrightarrow> s' = s'' \<Longrightarrow> reach serial t0 s''"
  by (blast intro: reach.reach_step)

text \<open>
  C4: when two requests call \<open>initialize\<close> at the same
  time, both can pass the test \<open>Camera.thread is None\<close> before either assigns it, and
  a reachable state has two live background threads, each opening the camera.
\<close>

theorem racing_initialize_two_loops:
  "\<exists>s t u. reach False t0 s \<and> live s t \<and> live s u \<and> t \<noteq> u"
proof -
  let ?c = "(cam_init t0)\<lparr>student_id := Some ''student_101'', log_callback := Some 0\<rparr>"
  let ?s1 = "\<lparr>cam = ?c, workers = Map.empty, pending = {0}, next_tid = 0\<rparr>"
  let ?s2 = "\<lparr>cam = ?c, workers = Map.empty, pending = {0, 1}, next_tid = 0\<rparr>"
  let ?s3 = "\<lparr>cam = ?c\<lparr>thread := Some 0\<rparr>, workers = [0 \<mapsto> W_Open], pending = {1}, next_tid = 1\<rparr>"
  let ?s4 = "\<lparr>cam = ?c\<lparr>thread := Some 1\<rparr>, workers = [0 \<mapsto> W_Open, 1 \<mapsto> W_Open], pending = {}, next_tid = 2\<rparr>"
  have r1: "reach False t0 ?s1"
    by (rule reach_next [OF reach.reach_init sys_step.init_test [OF _ _ refl, of 0]])
       (auto simp: sys_init_def cam_init_def)
  have r2: "reach False t0 ?s2"
    by (rule reach_next [OF r1 sys_step.init_test [OF _ _ refl, of 1]]) (auto simp: cam_init_def)
  have r3: "reach False t0 ?s3"
    by (rule reach_next [OF r2 sys_step.init_spawn [of 0]]) auto
  have r4: "reach False t0 ?s4"
    by (rule reach_next [OF r3 sys_step.init_spawn [of 1]]) auto
  moreover have "live ?s4 0" and "live ?s4 1" by (simp_all add: live_def)
  ultimately show ?thesis by blast
qed

section \<open>Teardown\<close>

text \<open>
  A published frame is never withdrawn, and a thread tearing down has published one; with
  no live thread and no pending request, only a new \<open>initialize\<close> can start one.
\<close>

lemma iterate_Stop_frame: "iterate s ob = (c, Stop) \<Longrightarrow> frame c = Some (jpeg ob)"
  by (cases "read_ok ob") (auto simp: iterate_Retry iterate_read Let_def split: if_splits)

lemma iterate_frame_kept: "frame s \<noteq> None \<Longrightarrow> frame (fst (iterate s ob)) \<noteq> None"
  by (cases "read_ok ob") (simp_all add: iterate_Retry iterate_read Let_def)

lemma sys_step_frame:
  assumes "sys_step serial s s'" and "frame (cam s) \<noteq> None"
  shows "frame (cam s') \<noteq> None"
  using assms
proof (induction rule: sys_step.induct)
  case (open_ok s t ok0 ok1 c d)
  then show ?case by (auto simp: thread_start_def split: if_splits)
next
  case (loop_next s t d ob c ctl)
  then show ?case using iterate_frame_kept [of "cam s" ob] by simp
next
  case (open_fail s t c)
  then show ?case by (auto simp: thread_start_def)
next
  case (loop_stop s t d ob c)
  then show ?case by (simp add: iterate_Stop_frame)
qed (auto simp: thread_exit_def get_frame_def Let_def)

lemma reach_tearing_frame:
  "reach serial t0 s \<Longrightarrow> tearing (workers s t) \<Longrightarrow> frame (cam s) \<noteq> None"
proof (induction rule: reach.induct)
  case reach_init
  then show ?case by (simp add: sys_init_def)
next
  case (reach_step s s')
  show ?case
  proof (cases "tearing (workers s t)")
    case True
    with reach_step.IH sys_step_frame [OF reach_step.hyps(2)] show ?thesis by blast
  next
    case False
    from reach_step.hyps(2) False reach_step.prems show ?thesis
    proof cases
      case (loop_stop t' d ob c)
      then show ?thesis by (simp add: iterate_Stop_frame)
    qed (auto split: if_splits)
  qed
qed

lemma no_live_step:
  assumes "sys_step serial s s'" and "pending s = {}" and "\<forall>u. \<not> live s u"
  shows "\<forall>u. \<not> live s' u"
  using assms
proof (induction rule: sys_step.induct)
  case (open_ok s t)
  then show ?case by (metis live_def live_pc.simps(3))
next
  case (loop_stop s t d)
  then show ?case by (metis live_def live_pc.simps(4))
next
  case (release s t d)
  then show ?case by (metis live_def live_pc.simps(5))
qed (auto simp: live_def split: if_splits)

text \<open>
  C14: an \<open>initialize\<close> that runs while the loop is
  tearing down (after \<open>camera.release()\<close>, before \<open>Camera.thread = None\<close>) sees a
  thread and starts none; once the old thread clears the attribute, no capture thread is
  live and none is pending, every later step of the system keeps it so until another
  \<open>initialize\<close>, and \<open>get_frame\<close> keeps returning the last frame at once: the
  client's stream is frozen, although the specification requires a restart after
  teardown.  This happens even when \<open>initialize\<close> calls never overlap.
\<close>

theorem initialize_lost_during_teardown:
  assumes "reach True t0 s" and "workers s t = Some W_Clear"
  shows "let c1 = fst (initialize (cam s) sid cb tid);
             s1 = s\<lparr>cam := c1\<rparr>;
             s2 = s1\<lparr>cam := thread_exit c1, workers := (workers s)(t \<mapsto> W_Done)\<rparr>
         in \<not> snd (initialize (cam s) sid cb tid) \<and> sys_step True s s1 \<and> sys_step True s1 s2 \<and>
            (\<forall>u. \<not> live s2 u) \<and> pending s2 = {} \<and> thread (cam s2) = None \<and>
            snd (get_frame (cam s2) now) = get_frame_poll (cam s) \<and> get_frame_poll (cam s) \<noteq> None \<and>
            (\<forall>s3. sys_step True s2 s3 \<longrightarrow> (\<forall>u. \<not> live s3 u))"
proof -
  have inv: "sys_inv s" using assms(1) by (rule reach_inv)
  have lv: "live s t" using assms(2) by (simp add: live_def)
  from sys_inv_owner [OF inv lv] have own: "thread (cam s) = Some t" and pend: "pending s = {}"
    and only: "\<And>u. live s u \<Longrightarrow> u = t" by auto
  have fr: "frame (cam s) \<noteq> None" using reach_tearing_frame [OF assms(1), of t] assms(2) by simp
  define c1 where "c1 = (cam s)\<lparr>student_id := Some sid, log_callback := Some cb\<rparr>"
  have ini: "initialize (cam s) sid cb tid = (c1, False)" by (simp add: initialize_def c1_def own)
  let ?s1 = "s\<lparr>cam := c1\<rparr>"
  let ?s2 = "?s1\<lparr>cam := thread_exit c1, workers := (workers s)(t \<mapsto> W_Done)\<rparr>"
  have st1: "sys_step True s ?s1"
    using sys_step.init_test [where r = 0 and s = s and c = c1 and sid = sid and cb = cb and serial = True] by (simp add: pend c1_def own)
  have st2: "sys_step True ?s1 ?s2"
    using sys_step.clear [where s = ?s1 and t = t and serial = True] assms(2) by simp
  have nl: "\<forall>u. \<not> live ?s2 u" using only by (auto simp: live_def)
  have pd: "pending ?s2 = {}" using pend by simp
  have after: "\<forall>s3. sys_step True ?s2 s3 \<longrightarrow> (\<forall>u. \<not> live s3 u)"
    using no_live_step [OF _ pd nl] by blast
  show ?thesis
    using ini st1 st2 nl pd after fr
    by (simp add: Let_def thread_exit_def get_frame_def get_frame_poll_def c1_def)
qed

lemma reach_demo_loop: "reach True 0 (demo_started\<lparr>workers := [0 \<mapsto> W_Loop 0]\<rparr>)"
  by (rule reach_next [OF reach_demo_started sys_step.open_ok [of _ 0 True True _ 0]])
     (simp_all add: demo_started_def thread_start_def)

lemma reach_demo_tearing: "reach True 0 demo_tearing"
proof -
  let ?ob = "\<lparr>read_ok = True, faces = Suc 0, enc_ok = True, jpeg = [1 :: 8 word], t_start = 3 :: real,
              t_check = 3, t_log = 3, t_end = 3, t_idle = 20\<rparr>"
  let ?c = "(cam_init 0)\<lparr>student_id := Some ''student_101'', log_callback := Some 0, thread := Some 0\<rparr>"
  let ?c4 = "?c\<lparr>frame_count := Suc 0, frame := Some [1]\<rparr>"
  note r3 = reach_demo_loop
  have it: "iterate ?c ?ob = (?c4, Stop)"
    by (simp add: iterate_def Let_def DETECTION_FRAME_SKIP_def detect_log_def classify_def should_log_def
        cam_init_def)
  have r4: "reach True 0 (demo_started\<lparr>cam := ?c4, workers := [0 \<mapsto> W_Release 0]\<rparr>)"
    by (rule reach_next [OF r3 sys_step.loop_stop [of _ 0 0 ?ob ?c4]])
       (simp_all add: demo_started_def it)
  show ?thesis
    by (rule reach_next [OF r4 sys_step.release [of _ 0 0]])
       (simp_all add: demo_started_def demo_tearing_def)
qed

theorem initialize_lost_during_teardown_witness:
  "\<not> snd (initialize (cam demo_tearing) ''student_101'' 0 1) \<and>
   snd (get_frame (thread_exit (fst (initialize (cam demo_tearing) ''student_101'' 0 1))) 5) = Some [1]"
  using initialize_lost_during_teardown [OF reach_demo_tearing, of 0 "''student_101''" 0 1 5]
  by (simp add: Let_def demo_tearing_def get_frame_poll_def)

text \<open>
  C13: a teardown that runs to its end does allow a restart.  From any
  reachable state where a thread has released the device, its last step
  \<open>Camera.thread = None\<close> leaves no live thread, and an \<open>initialize\<close> after it (its
  test, then its start) makes a fresh thread live and recorded in \<open>Camera.thread\<close>.
\<close>

theorem serial_restart:
  assumes "reach True t0 s" and "workers s t = Some W_Clear"
  shows "let s1 = s\<lparr>cam := thread_exit (cam s), workers := (workers s)(t \<mapsto> W_Done)\<rparr> in
         sys_step True s s1 \<and> (\<forall>u. \<not> live s1 u) \<and>
         (\<exists>s2 s3. sys_step True s1 s2 \<and> sys_step True s2 s3 \<and> reach True t0 s3 \<and>
                  live s3 (next_tid s) \<and> thread (cam s3) = Some (next_tid s))"
proof -
  have inv: "sys_inv s" using assms(1) by (rule reach_inv)
  have lv: "live s t" using assms(2) by (simp add: live_def)
  from sys_inv_owner [OF inv lv] have pend: "pending s = {}" and only: "\<And>u. live s u \<Longrightarrow> u = t"
    by auto
  define s1 where "s1 = s\<lparr>cam := thread_exit (cam s), workers := (workers s)(t \<mapsto> W_Done)\<rparr>"
  have st1: "sys_step True s s1" unfolding s1_def by (rule sys_step.clear [OF assms(2)])
  have r1: "reach True t0 s1" by (rule reach.reach_step [OF assms(1) st1])
  have nl: "\<forall>u. \<not> live s1 u" using only by (auto simp: s1_def live_def)
  define c where "c = (cam s1)\<lparr>student_id := Some ''student_101'', log_callback := Some 0\<rparr>"
  define s2 where "s2 = s1\<lparr>cam := c, pending := insert 0 (pending s1)\<rparr>"
  have "sys_step True s1 (if thread c = None then s1\<lparr>cam := c, pending := insert 0 (pending s1)\<rparr>
                          else s1\<lparr>cam := c\<rparr>)"
    by (rule sys_step.init_test) (simp_all add: s1_def pend c_def)
  then have st2: "sys_step True s1 s2" by (simp add: s2_def c_def s1_def thread_exit_def)
  define s3 where "s3 = s2\<lparr>cam := (cam s2)\<lparr>thread := Some (next_tid s2)\<rparr>,
                           workers := (workers s2)(next_tid s2 \<mapsto> W_Open),
                           pending := pending s2 - {0}, next_tid := Suc (next_tid s2)\<rparr>"
  have st3: "sys_step True s2 s3" unfolding s3_def by (rule sys_step.init_spawn) (simp add: s2_def)
  have r3: "reach True t0 s3" using r1 st2 st3 by (blast intro: reach.reach_step)
  have "live s3 (next_tid s)" "thread (cam s3) = Some (next_tid s)"
    by (simp_all add: s3_def s2_def s1_def live_def)
  with st1 nl st2 st3 r3 show ?thesis unfolding s1_def [symmetric] Let_def by blast
qed

theorem serial_restart_witness:
  "\<exists>s2 s3. sys_step True (demo_tearing\<lparr>cam := thread_exit (cam demo_tearing), workers := [0 \<mapsto> W_Done]\<rparr>) s2 \<and>
     sys_step True s2 s3 \<and> reach True 0 s3 \<and> live s3 1 \<and> thread (cam s3) = Some 1"
proof -
  have w: "workers demo_tearing 0 = Some W_Clear" by (simp add: demo_tearing_def)
  from serial_restart [OF reach_demo_tearing w] show ?thesis
    by (simp add: Let_def demo_tearing_def)
qed

end
