(* ===== verification/Exam.thy ===== *)
theory Exam
  imports Prelude
begin

text \<open>
  The Flask application of \<open>src/app.py\<close> apart from the camera: the mock database
  (\<open>EXAMS\<close>, \<open>USERS\<close>), the central log (\<open>SESSION_LOGS\<close> and
  \<open>central_log_handler\<close>), and the routes that read or change them.  The three
  dictionaries are maps of one record \<open>app_state\<close>; each route is a function from the
  state and the request's inputs to \<open>py_error + (app_state \<times> response)\<close>, where
  \<open>Inl\<close> is an exception that Flask turns into a 500 response.  A route's JSON body
  (\<open>request.json\<close>) is \<open>None\<close> when there is none and otherwise a map from keys to
  string values; \<open>time.strftime\<close> is an input \<open>ts\<close>.  Template rendering and
  \<open>print\<close> output are not modelled.
\<close>

section \<open>Data\<close>

text \<open>A question of \<open>EXAMS\<close> (lines 11--13): the dictionary keys id, text, options, answer.\<close>

record question =
  qid :: int
  qtext :: string
  options :: "(string \<times> string) list"
  answer :: string

text \<open>A user of \<open>USERS\<close> (line 18).  \<open>answers\<close> maps a question id to the submitted option, itself \<open>None\<close> when the request carried none.\<close>

record user =
  name :: string
  exam_id :: string
  current_q_index :: int
  status :: string
  submitted :: bool
  score :: int
  answers :: "int \<rightharpoonup> string option"

text \<open>An entry of the central log (lines 29--34) and the three lists kept per student (line 24).\<close>

record log_entry =
  le_time :: string
  le_type :: string
  le_level :: log_level
  le_message :: string

record session_log =
  video_warnings :: "log_entry list"
  browser_events :: "log_entry list"
  admin_actions :: "log_entry list"

record app_state =
  exams :: "string \<rightharpoonup> question list"
  users :: "string \<rightharpoonup> user"
  session_logs :: "string \<rightharpoonup> session_log"

text \<open>What a route returns: the JSON objects of the sources, with their HTTP status.\<close>

datatype response =
    Err string nat                    \<comment> \<open>\<open>{"error": msg}\<close>, status\<close>
  | Finished_msg                      \<comment> \<open>\<open>{"finished": True, "message": ...}\<close>\<close>
  | Question_view int string "(string \<times> string) list" int  \<comment> \<open>id, text, options, \<open>q_number\<close>\<close>
  | Submitted bool                    \<comment> \<open>\<open>{"success": True, "finished": b}\<close>\<close>
  | Success_msg bool string nat       \<comment> \<open>\<open>{"success": b, "message": msg}\<close>, status\<close>
  | Logs session_log
  | Logged                            \<comment> \<open>\<open>{"status": "logged"}\<close>, 200\<close>
  | Log_error string                  \<comment> \<open>\<open>{"status": "error", "message": msg}\<close>, 400\<close>

type_synonym json = "string \<rightharpoonup> string"

section \<open>The mock database\<close>

text \<open>Line 23.\<close>

definition STUDENT_ID :: string where
  "STUDENT_ID = ''student_101''"

text \<open>Lines 9--24.\<close>

definition exam_001 :: "question list" where
  "exam_001 =
     [\<lparr>qid = 1, qtext = ''What is the capital of France?'',
       options = [(''A'', ''Berlin''), (''B'', ''Paris''), (''C'', ''Rome'')], answer = ''B''\<rparr>,
      \<lparr>qid = 2, qtext = ''What does SQL stand for?'',
       options = [(''A'', ''Structured Query Language''), (''B'', ''Standard Question Language''),
                  (''C'', ''Simple Query Logic'')], answer = ''A''\<rparr>,
      \<lparr>qid = 3, qtext = ''Who painted the Mona Lisa?'',
       options = [(''A'', ''Van Gogh''), (''B'', ''Da Vinci''), (''C'', ''Picasso'')], answer = ''B''\<rparr>]"

definition empty_log :: session_log where
  "empty_log = \<lparr>video_warnings = [], browser_events = [], admin_actions = []\<rparr>"

definition app_init :: app_state where
  "app_init =
     \<lparr>exams = [''exam_001'' \<mapsto> exam_001],
      users = [STUDENT_ID \<mapsto> \<lparr>name = ''Alice Smith'', exam_id = ''exam_001'', current_q_index = 0,
                               status = ''active'', submitted = False, score = 0, answers = Map.empty\<rparr>],
      session_logs = [STUDENT_ID \<mapsto> empty_log]\<rparr>"

section \<open>The central log\<close>

text \<open>
  Lines 26--45: the entry is appended to the list of its type when the student has a log;
  any other type (the \<open>'system'\<close> entries of \<open>submit_answer\<close>) is only printed.
\<close>

definition central_log_handler ::
  "app_state \<Rightarrow> string \<Rightarrow> string \<Rightarrow> log_level \<Rightarrow> string \<Rightarrow> string \<Rightarrow> app_state" where
  "central_log_handler st sid log_type level message ts =
     (case session_logs st sid of
        None \<Rightarrow> st
      | Some lg \<Rightarrow>
          let e = \<lparr>le_time = ts, le_type = log_type, le_level = level, le_message = message\<rparr> in
          if log_type = ''video'' then
            st\<lparr>session_logs := (session_logs st)(sid \<mapsto> lg\<lparr>video_warnings := video_warnings lg @ [e]\<rparr>)\<rparr>
          else if log_type = ''browser'' then
            st\<lparr>session_logs := (session_logs st)(sid \<mapsto> lg\<lparr>browser_events := browser_events lg @ [e]\<rparr>)\<rparr>
          else if log_type = ''admin'' then
            st\<lparr>session_logs := (session_logs st)(sid \<mapsto> lg\<lparr>admin_actions := admin_actions lg @ [e]\<rparr>)\<rparr>
          else st)"

section \<open>Routes\<close>

text \<open>
  Lines 63--80.  A missing exam makes \<open>len(exam)\<close> raise \<open>TypeError\<close>; \<open>exam[q_index]\<close>
  is Python indexing.
\<close>

definition get_question :: "app_state \<Rightarrow> string \<Rightarrow> py_error + response" where
  "get_question st sid =
     (case users st sid of
        None \<Rightarrow> Inr (Err ''Exam ended or user not found'' 404)
      | Some u \<Rightarrow>
          if submitted u then Inr (Err ''Exam ended or user not found'' 404)
          else (case exams st (exam_id u) of
            None \<Rightarrow> Inl TypeError
          | Some ex \<Rightarrow>
              let q = current_q_index u in
              if q \<ge> int (length ex) then Inr Finished_msg
              else (case py_index ex q of
                Inl e \<Rightarrow> Inl e
              | Inr qd \<Rightarrow> Inr (Question_view (qid qd) (qtext qd) (options qd) (q + 1)))))"

text \<open>
  Lines 83--118.  The answer is recorded, the score raised when it is right, the index
  advanced; after the last question the user is marked submitted.  A missing JSON body
  raises \<open>AttributeError\<close> at \<open>data.get\<close>, after the checks and before any change.
\<close>

definition submit_answer :: "app_state \<Rightarrow> string \<Rightarrow> json option \<Rightarrow> string \<Rightarrow> py_error + (app_state \<times> response)" where
  "submit_answer st sid data ts =
     (case users st sid of
        None \<Rightarrow> Inr (st, Err ''Exam ended or user not found'' 400)
      | Some u \<Rightarrow>
          if submitted u then Inr (st, Err ''Exam ended or user not found'' 400)
          else (case exams st (exam_id u) of
            None \<Rightarrow> Inl TypeError
          | Some ex \<Rightarrow>
              let q = current_q_index u in
              if q \<ge> int (length ex) then Inr (st, Err ''No more questions'' 400)
              else (case py_index ex q of
                Inl e \<Rightarrow> Inl e
              | Inr cq \<Rightarrow>
                  (case data of
                     None \<Rightarrow> Inl AttributeError
                   | Some d \<Rightarrow>
                       let sel = d ''selected_option'';
                           u1 = u\<lparr>answers := (answers u)(qid cq \<mapsto> sel)\<rparr>;
                           u2 = (if sel = Some (answer cq) then u1\<lparr>score := score u1 + 1\<rparr> else u1);
                           u3 = u2\<lparr>current_q_index := current_q_index u2 + 1\<rparr>
                       in if current_q_index u3 \<ge> int (length ex) then
                            let u4 = u3\<lparr>submitted := True\<rparr> in
                            Inr (central_log_handler (st\<lparr>users := (users st)(sid \<mapsto> u4)\<rparr>) sid ''system'' INFO
                                   (''Exam submitted automatically. Score: '' @ str_int (score u4) @ ''/''
                                    @ str_nat (length ex)) ts,
                                 Submitted True)
                          else
                            Inr (central_log_handler (st\<lparr>users := (users st)(sid \<mapsto> u3)\<rparr>) sid ''system'' INFO
                                   (''Answer submitted for Q'' @ str_int (q + 1) @ ''. Next question loaded.'') ts,
                                 Submitted False)))))"

text \<open>Lines 122--129: no check that the student exists.\<close>

definition admin_send_warning :: "app_state \<Rightarrow> string \<Rightarrow> json option \<Rightarrow> string \<Rightarrow> py_error + (app_state \<times> response)" where
  "admin_send_warning st sid data ts =
     (case data of
        None \<Rightarrow> Inl AttributeError
      | Some d \<Rightarrow>
          let message = (case d ''message'' of None \<Rightarrow> ''General warning sent by proctor.'' | Some m \<Rightarrow> m) in
          Inr (central_log_handler st sid ''admin'' WARNING (''Proctor sent warning: '' @ message) ts,
               Success_msg True ''Warning logged and sent (conceptually).'' 200))"

text \<open>Lines 132--141.\<close>

definition admin_end_session :: "app_state \<Rightarrow> string \<Rightarrow> string \<Rightarrow> app_state \<times> response" where
  "admin_end_session st sid ts =
     (case users st sid of
        Some u \<Rightarrow>
          (central_log_handler (st\<lparr>users := (users st)(sid \<mapsto> u\<lparr>status := ''force_ended'', submitted := True\<rparr>)\<rparr>)
             sid ''admin'' CRITICAL ''Proctor FORCEFULLY ENDED the session.'' ts,
           Success_msg True ''Session force-ended.'' 200)
      | None \<Rightarrow> (st, Success_msg False ''User not found.'' 404))"

text \<open>Lines 172--177.\<close>

definition get_latest_logs :: "app_state \<Rightarrow> string \<Rightarrow> response" where
  "get_latest_logs st sid =
     (case session_logs st sid of Some lg \<Rightarrow> Logs lg | None \<Rightarrow> Err ''Student not found'' 404)"

text \<open>
  Lines 179--192.  \<open>event_type.upper()\<close> raises \<open>AttributeError\<close> when the body has no
  event type; a missing student id is never a key of \<open>SESSION_LOGS\<close>.
\<close>

definition browser_level :: "string option \<Rightarrow> log_level" where
  "browser_level et = (if et \<in> {Some ''tab_switch'', Some ''copy'', Some ''paste''} then CRITICAL else WARNING)"

definition log_browser_event :: "app_state \<Rightarrow> json option \<Rightarrow> string \<Rightarrow> py_error + (app_state \<times> response)" where
  "log_browser_event st data ts =
     (case data of
        None \<Rightarrow> Inl AttributeError
      | Some d \<Rightarrow>
          let sid = d ''student_id''; event_type = d ''event_type'';
              details = (case d ''details'' of None \<Rightarrow> '''' | Some x \<Rightarrow> x)
          in (case sid of
               Some s \<Rightarrow>
                 if s \<in> dom (session_logs st) then
                   (case event_type of
                      None \<Rightarrow> Inl AttributeError
                    | Some et \<Rightarrow>
                        Inr (central_log_handler st s ''browser'' (browser_level event_type)
                               (''Event: '' @ upper et @ ''. Details: '' @ details) ts, Logged))
                 else Inr (st, Log_error ''Invalid student ID'')
             | None \<Rightarrow> Inr (st, Log_error ''Invalid student ID'')))"

text \<open>
  The two pages (lines 50--60 and 163--169), as the template and the values passed to it:
  \<open>index\<close> answers 404 when the configured student is missing, shows the results
  page once the exam is submitted, and otherwise the exam page with the number of
  questions, where a missing exam raises \<open>KeyError\<close> at \<open>EXAMS[user['exam_id']]\<close>.
\<close>

datatype page =
    Text_page string nat            \<comment> \<open>a plain-text body with its status\<close>
  | Results_page user               \<comment> \<open>\<open>results.html\<close>\<close>
  | Index_page string nat           \<comment> \<open>\<open>index.html\<close>: student id, total questions\<close>
  | Admin_page string               \<comment> \<open>\<open>admin.html\<close>: the student id\<close>

definition index :: "app_state \<Rightarrow> py_error + page" where
  "index st =
     (case users st STUDENT_ID of
        None \<Rightarrow> Inr (Text_page ''User not found.'' 404)
      | Some u \<Rightarrow>
          if submitted u then Inr (Results_page u)
          else (case exams st (exam_id u) of
                  None \<Rightarrow> Inl KeyError
                | Some ex \<Rightarrow> Inr (Index_page STUDENT_ID (length ex))))"

definition admin :: page where
  "admin = Admin_page STUDENT_ID"

section \<open>The application as a request dispatcher\<close>

text \<open>
  The grading abstraction used by the properties: the number of questions among the first
  \<open>n\<close> whose recorded answer is the right one; the per-user invariant; and Flask's
  dispatch of a request to its route (lines 48--192), where an exception gives a 500
  response and leaves the state as the route found it (every route raises before it
  changes anything).
\<close>

definition grade :: "question list \<Rightarrow> (int \<rightharpoonup> string option) \<Rightarrow> nat \<Rightarrow> nat" where
  "grade ex ans n = length (filter (\<lambda>q. ans (qid q) = Some (Some (answer q))) (take n ex))"

definition user_ok :: "question list \<Rightarrow> user \<Rightarrow> bool" where
  "user_ok ex u \<longleftrightarrow>
     distinct (map qid ex) \<and> 0 \<le> current_q_index u \<and> current_q_index u \<le> int (length ex) \<and>
     score u = int (grade ex (answers u) (nat (current_q_index u))) \<and>
     (current_q_index u = int (length ex) \<longrightarrow> submitted u)"

definition app_inv :: "app_state \<Rightarrow> bool" where
  "app_inv st \<longleftrightarrow>
     (\<forall>sid u. users st sid = Some u \<longrightarrow>
        (case exams st (exam_id u) of None \<Rightarrow> False | Some ex \<Rightarrow> user_ok ex u))"

datatype request =
    Get_question string
  | Submit_answer string "json option"
  | Send_warning string "json option"
  | End_session string
  | Get_latest_logs string
  | Log_browser_event "json option"

definition app_step :: "app_state \<Rightarrow> request \<Rightarrow> string \<Rightarrow> app_state \<times> (py_error + response)" where
  "app_step st req ts =
     (case req of
        Get_question sid \<Rightarrow> (st, get_question st sid)
      | Submit_answer sid d \<Rightarrow>
          (case submit_answer st sid d ts of Inl e \<Rightarrow> (st, Inl e) | Inr (st', r) \<Rightarrow> (st', Inr r))
      | Send_warning sid d \<Rightarrow>
          (case admin_send_warning st sid d ts of Inl e \<Rightarrow> (st, Inl e) | Inr (st', r) \<Rightarrow> (st', Inr r))
      | End_session sid \<Rightarrow> (case admin_end_session st sid ts of (st', r) \<Rightarrow> (st', Inr r))
      | Get_latest_logs sid \<Rightarrow> (st, Inr (get_latest_logs st sid))
      | Log_browser_event d \<Rightarrow>
          (case log_browser_event st d ts of Inl e \<Rightarrow> (st, Inl e) | Inr (st', r) \<Rightarrow> (st', Inr r)))"

fun app_run :: "app_state \<Rightarrow> (request \<times> string) list \<Rightarrow> app_state \<times> (py_error + response) list" where
  "app_run st [] = (st, [])"
| "app_run st ((req, ts) # rs) =
     (let (st1, r) = app_step st req ts; (st2, out) = app_run st1 rs in (st2, r # out))"

text \<open>A student answering B, A and C, then asking for the next question.\<close>

definition demo_exam_run :: "(request \<times> string) list" where
  "demo_exam_run =
     [(Submit_answer STUDENT_ID (Some [''selected_option'' \<mapsto> ''B'']), ''10:00:01''),
      (Submit_answer STUDENT_ID (Some [''selected_option'' \<mapsto> ''A'']), ''10:00:02''),
      (Submit_answer STUDENT_ID (Some [''selected_option'' \<mapsto> ''C'']), ''10:00:03''),
      (Get_question STUDENT_ID, ''10:00:04'')]"

definition demo_done_user :: user where
  "demo_done_user =
     \<lparr>name = ''Alice Smith'', exam_id = ''exam_001'', current_q_index = 3, status = ''active'',
      submitted = True, score = 2, answers = [1 \<mapsto> Some ''B'', 2 \<mapsto> Some ''A'', 3 \<mapsto> Some ''C'']\<rparr>"

section \<open>Lemmas\<close>

text \<open>Question ids are distinct, so recording the answer to question \<open>i\<close> leaves the earlier ones alone.\<close>

lemma qid_take_neq:
  assumes "distinct (map qid ex)" and "i < length ex" and "q \<in> set (take i ex)"
  shows "qid q \<noteq> qid (ex ! i)"
proof -
  from assms(2,3) obtain j where j: "j < i" "q = ex ! j" by (auto simp: in_set_conv_nth)
  with assms(1,2) show ?thesis by (auto simp: distinct_conv_nth)
qed

lemma grade_step:
  assumes "distinct (map qid ex)" and "i < length ex"
  shows "grade ex (ans(qid (ex ! i) \<mapsto> sel)) (Suc i) =
         grade ex ans i + (if sel = Some (answer (ex ! i)) then 1 else 0)"
proof -
  have take: "take (Suc i) ex = take i ex @ [ex ! i]" using assms(2) by (simp add: take_Suc_conv_app_nth)
  have "qid q \<noteq> qid (ex ! i)" if "q \<in> set (take i ex)" for q
    using qid_take_neq [OF assms that] .
  then have "filter (\<lambda>q. (ans(qid (ex ! i) \<mapsto> sel)) (qid q) = Some (Some (answer q))) (take i ex)
           = filter (\<lambda>q. ans (qid q) = Some (Some (answer q))) (take i ex)"
    by (intro filter_cong) auto
  then show ?thesis by (simp add: grade_def take)
qed

lemma central_log_handler_users [simp]: "users (central_log_handler st sid ty l m ts) = users st"
  by (simp add: central_log_handler_def Let_def split: option.splits)

lemma central_log_handler_exams [simp]: "exams (central_log_handler st sid ty l m ts) = exams st"
  by (simp add: central_log_handler_def Let_def split: option.splits)

lemma app_inv_users:
  "app_inv st \<Longrightarrow> exams st (exam_id u) = Some ex \<Longrightarrow> user_ok ex u \<Longrightarrow>
   app_inv (st\<lparr>users := (users st)(sid \<mapsto> u)\<rparr>)"
  by (auto simp: app_inv_def)

lemma app_inv_logs: "app_inv (central_log_handler st sid ty l m ts) = app_inv st"
  by (simp add: app_inv_def)

lemma submit_answer_inv:
  assumes "app_inv st" and "submit_answer st sid d ts = Inr (st', r)"
  shows "app_inv st'"
proof (cases "users st sid")
  case None
  with assms show ?thesis by (simp add: submit_answer_def)
next
  case (Some u)
  show ?thesis
  proof (cases "submitted u")
    case True
    with assms Some show ?thesis by (simp add: submit_answer_def)
  next
    case False
    from assms(1) Some obtain ex where ex: "exams st (exam_id u) = Some ex" and ok: "user_ok ex u"
      by (auto simp: app_inv_def split: option.splits)
    let ?q = "current_q_index u"
    from ok False have q: "0 \<le> ?q" "?q < int (length ex)"
      by (auto simp: user_ok_def)
    then have nq: "nat ?q < length ex" by linarith
    from assms(2) Some False ex q obtain dd where d: "d = Some dd"
      by (cases d) (auto simp: submit_answer_def Let_def)
    let ?sel = "dd ''selected_option''"
    let ?u3 = "(if ?sel = Some (answer (ex ! nat ?q))
                then u\<lparr>answers := (answers u)(qid (ex ! nat ?q) \<mapsto> ?sel), score := score u + 1\<rparr>
                else u\<lparr>answers := (answers u)(qid (ex ! nat ?q) \<mapsto> ?sel)\<rparr>)\<lparr>current_q_index := ?q + 1\<rparr>"
    have gr: "grade ex ((answers u)(qid (ex ! nat ?q) \<mapsto> ?sel)) (nat (?q + 1)) =
              grade ex (answers u) (nat ?q) + (if ?sel = Some (answer (ex ! nat ?q)) then 1 else 0)"
      using grade_step [of ex "nat ?q" "answers u" ?sel] ok nq q
      by (simp add: user_ok_def nat_add_distrib)
    have ok3: "user_ok ex (?u3\<lparr>submitted := (?q + 1 \<ge> int (length ex))\<rparr>)"
      using ok q gr by (auto simp: user_ok_def)
    show ?thesis
    proof (cases "?q + 1 \<ge> int (length ex)")
      case True
      with assms(2) Some False ex q d have st': "st' = central_log_handler (st\<lparr>users := (users st)(sid \<mapsto> ?u3\<lparr>submitted := True\<rparr>)\<rparr>)
          sid ''system'' INFO (''Exam submitted automatically. Score: '' @ str_int (score (?u3\<lparr>submitted := True\<rparr>)) @ ''/'' @ str_nat (length ex)) ts"
        by (auto simp: submit_answer_def Let_def)
      from ok3 True have "user_ok ex (?u3\<lparr>submitted := True\<rparr>)" by simp
      with assms(1) ex show ?thesis unfolding st' app_inv_logs by (intro app_inv_users) simp_all
    next
      case False
      with assms(2) Some \<open>\<not> submitted u\<close> ex q d have st': "st' = central_log_handler (st\<lparr>users := (users st)(sid \<mapsto> ?u3)\<rparr>)
          sid ''system'' INFO (''Answer submitted for Q'' @ str_int (?q + 1) @ ''. Next question loaded.'') ts"
        by (auto simp: submit_answer_def Let_def)
      from ok3 False have "user_ok ex ?u3"
        by (cases "?sel = Some (answer (ex ! nat ?q))") (simp_all add: user_ok_def)
      with assms(1) ex show ?thesis unfolding st' app_inv_logs by (intro app_inv_users) simp_all
    qed
  qed
qed
lemma admin_send_warning_inv:
  "app_inv st \<Longrightarrow> admin_send_warning st sid d ts = Inr (st', r) \<Longrightarrow> app_inv st'"
  by (auto simp: admin_send_warning_def Let_def app_inv_logs split: option.splits)

lemma log_browser_event_inv:
  "app_inv st \<Longrightarrow> log_browser_event st d ts = Inr (st', r) \<Longrightarrow> app_inv st'"
  by (auto simp: log_browser_event_def Let_def app_inv_logs split: option.splits if_splits)

lemma admin_end_session_inv:
  assumes "app_inv st" and "admin_end_session st sid ts = (st', r)" shows "app_inv st'"
proof (cases "users st sid")
  case None
  with assms show ?thesis by (auto simp: admin_end_session_def)
next
  case (Some u)
  with assms obtain ex where ex: "exams st (exam_id u) = Some ex" and ok: "user_ok ex u"
    by (auto simp: app_inv_def split: option.splits)
  then have "user_ok ex (u\<lparr>status := ''force_ended'', submitted := True\<rparr>)"
    by (simp add: user_ok_def)
  with assms ex Some show ?thesis
    by (auto simp: admin_end_session_def app_inv_logs app_inv_users)
qed

lemma app_step_inv: "app_inv st \<Longrightarrow> app_inv (fst (app_step st req ts))"
  by (cases req)
     (auto simp: app_step_def split: sum.splits prod.splits
           dest: submit_answer_inv admin_send_warning_inv log_browser_event_inv admin_end_session_inv)

lemma app_run_inv: "app_inv st \<Longrightarrow> app_inv (fst (app_run st rs))"
proof (induction st rs rule: app_run.induct)
  case (1 st)
  then show ?case by simp
next
  case (2 st req ts rs)
  then show ?case using app_step_inv [OF "2.prems", of req ts]
    by (auto split: prod.splits)
qed

lemma app_inv_init: "app_inv app_init"
  by (simp add: app_inv_def app_init_def user_ok_def grade_def exam_001_def STUDENT_ID_def)

lemma app_step_exams: "exams (fst (app_step st req ts)) = exams st"
  by (cases req)
     (auto simp: app_step_def submit_answer_def admin_send_warning_def admin_end_session_def
       log_browser_event_def Let_def split: sum.splits option.splits if_splits prod.splits)

lemma app_run_exams: "exams (fst (app_run st rs)) = exams st"
proof (induction st rs rule: app_run.induct)
  case (1 st)
  then show ?case by simp
next
  case (2 st req ts rs)
  then show ?case using app_step_exams [of st req ts] by (auto split: prod.splits)
qed

lemma app_run_from_init:
  assumes "users (fst (app_run app_init rs)) sid = Some u"
  shows "\<exists>ex. exams app_init (exam_id u) = Some ex \<and> user_ok ex u"
proof -
  have inv: "app_inv (fst (app_run app_init rs))" by (rule app_run_inv [OF app_inv_init])
  from inv assms obtain ex where "exams (fst (app_run app_init rs)) (exam_id u) = Some ex" and "user_ok ex u"
    by (auto simp: app_inv_def split: option.splits)
  then show ?thesis by (auto simp: app_run_exams)
qed

lemma central_log_handler_system [simp]:
  "central_log_handler st sid ''system'' l m ts = st"
  by (simp add: central_log_handler_def Let_def split: option.splits)

lemma demo_exam_run_result:
  "app_run app_init demo_exam_run =
   (app_init\<lparr>users := [STUDENT_ID \<mapsto> demo_done_user]\<rparr>,
    [Inr (Submitted False), Inr (Submitted False), Inr (Submitted True),
     Inr (Err ''Exam ended or user not found'' 404)])"
  by (simp add: demo_exam_run_def demo_done_user_def app_init_def exam_001_def app_step_def
      submit_answer_def get_question_def STUDENT_ID_def Let_def py_index_def central_log_handler_def)

section \<open>Properties of the exam routes\<close>

text \<open>
  C9: in every state the routes reach from the initial database, each
  user's question index lies between 0 and the length of their exam, and their score is
  the number of questions before that index whose recorded answer is the right one.
\<close>

theorem score_is_grade:
  assumes "users (fst (app_run app_init rs)) sid = Some u"
  shows "\<exists>ex. exams app_init (exam_id u) = Some ex \<and>
           0 \<le> current_q_index u \<and> current_q_index u \<le> int (length ex) \<and>
           score u = int (grade ex (answers u) (nat (current_q_index u)))"
  using app_run_from_init [OF assms] by (auto simp: user_ok_def)

theorem score_is_grade_witness:
  "score demo_done_user = int (grade exam_001 (answers demo_done_user) 3)"
proof -
  have h: "users (fst (app_run app_init demo_exam_run)) STUDENT_ID = Some demo_done_user"
    by (simp only: demo_exam_run_result) simp
  from score_is_grade [OF h] show ?thesis
    by (auto simp: demo_done_user_def app_init_def)
qed

text \<open>
  C24: in every reachable state, a user whose index has reached
  the end of their exam is marked submitted.
\<close>

theorem last_answer_submits:
  assumes "users (fst (app_run app_init rs)) sid = Some u"
    and "exams app_init (exam_id u) = Some ex" and "current_q_index u = int (length ex)"
  shows "submitted u"
  using app_run_from_init [OF assms(1)] assms(2,3) by (auto simp: user_ok_def)

theorem last_answer_submits_witness: "submitted demo_done_user"
proof -
  have h1: "users (fst (app_run app_init demo_exam_run)) STUDENT_ID = Some demo_done_user"
    by (simp only: demo_exam_run_result) simp
  have h2: "exams app_init (exam_id demo_done_user) = Some exam_001"
    and h3: "current_q_index demo_done_user = int (length exam_001)"
    by (simp_all add: demo_done_user_def app_init_def exam_001_def)
  from last_answer_submits [OF h1 h2 h3] show ?thesis .
qed

text \<open>
  C25: once a user is submitted, \<open>submit_answer\<close> answers 400 and
  changes nothing: the score and answers are final.
\<close>

theorem submitted_frozen:
  "users st sid = Some u \<Longrightarrow> submitted u \<Longrightarrow>
   submit_answer st sid d ts = Inr (st, Err ''Exam ended or user not found'' 400)"
  by (simp add: submit_answer_def)

theorem submitted_frozen_witness:
  "submit_answer (app_init\<lparr>users := [STUDENT_ID \<mapsto> demo_done_user]\<rparr>) STUDENT_ID None ''10:00:05'' =
   Inr (app_init\<lparr>users := [STUDENT_ID \<mapsto> demo_done_user]\<rparr>, Err ''Exam ended or user not found'' 400)"
  by (rule submitted_frozen) (simp, simp add: demo_done_user_def)

text \<open>
  C26: \<open>submit_answer\<close> logs its events with type
  \<open>'system'\<close>, which \<open>central_log_handler\<close> does not store: a successful submission
  never changes the session logs, so the admin never sees answers or the final score.
\<close>

theorem system_logs_dropped:
  "submit_answer st sid d ts = Inr (st', r) \<Longrightarrow> session_logs st' = session_logs st"
  by (auto simp: submit_answer_def Let_def split: option.splits if_splits sum.splits)

theorem system_logs_dropped_witness:
  "\<exists>st' r. submit_answer app_init STUDENT_ID (Some [''selected_option'' \<mapsto> ''B'']) ''10:00:01'' = Inr (st', r)
     \<and> session_logs st' = session_logs app_init"
proof -
  obtain st' r where e: "submit_answer app_init STUDENT_ID (Some [''selected_option'' \<mapsto> ''B'']) ''10:00:01'' = Inr (st', r)"
    by (simp add: app_init_def exam_001_def submit_answer_def STUDENT_ID_def Let_def py_index_def)
  with system_logs_dropped [OF e] show ?thesis by blast
qed

text \<open>
  C33: a browser event for a student with a log appends one
  entry to that student's browser events, CRITICAL for a tab switch, copy or paste and
  WARNING otherwise, with the upper-cased event type and the details in its message.
\<close>

theorem browser_event_logged:
  assumes "session_logs st s = Some lg" and "d ''student_id'' = Some s" and "d ''event_type'' = Some et"
  shows "log_browser_event st (Some d) ts =
    Inr (st\<lparr>session_logs := (session_logs st)(s \<mapsto> lg\<lparr>browser_events := browser_events lg @
          [\<lparr>le_time = ts, le_type = ''browser'',
            le_level = (if et \<in> {''tab_switch'', ''copy'', ''paste''} then CRITICAL else WARNING),
            le_message = ''Event: '' @ upper et @ ''. Details: '' @ (case d ''details'' of None \<Rightarrow> '''' | Some x \<Rightarrow> x)\<rparr>]\<rparr>)\<rparr>,
         Logged)"
  using assms by (auto simp: log_browser_event_def central_log_handler_def browser_level_def Let_def)

theorem browser_event_logged_witness:
  "log_browser_event app_init (Some [''student_id'' \<mapsto> STUDENT_ID, ''event_type'' \<mapsto> ''copy'']) ''10:00:00'' =
    Inr (app_init\<lparr>session_logs := (session_logs app_init)(STUDENT_ID \<mapsto> empty_log\<lparr>browser_events :=
          browser_events empty_log @
          [\<lparr>le_time = ''10:00:00'', le_type = ''browser'',
            le_level = (if ''copy'' \<in> {''tab_switch'', ''copy'', ''paste''} then CRITICAL else WARNING),
            le_message = ''Event: '' @ upper ''copy'' @ ''. Details: '' @
              (case [''student_id'' \<mapsto> STUDENT_ID, ''event_type'' \<mapsto> ''copy''] ''details'' of
                 None \<Rightarrow> '''' | Some x \<Rightarrow> x)\<rparr>]\<rparr>)\<rparr>, Logged)"
  by (rule browser_event_logged) (simp_all add: app_init_def STUDENT_ID_def)

text \<open>
  C34: after the proctor force-ends a student's session, that
  student can neither submit answers nor fetch questions.
\<close>

theorem end_session_blocks:
  assumes "users st sid = Some u"
  shows "submit_answer (fst (admin_end_session st sid ts)) sid d ts' =
           Inr (fst (admin_end_session st sid ts), Err ''Exam ended or user not found'' 400) \<and>
         get_question (fst (admin_end_session st sid ts)) sid = Inr (Err ''Exam ended or user not found'' 404)"
  using assms by (simp add: admin_end_session_def submit_answer_def get_question_def)

theorem end_session_blocks_witness:
  "get_question (fst (admin_end_session app_init STUDENT_ID ''10:00:00'')) STUDENT_ID =
     Inr (Err ''Exam ended or user not found'' 404)"
proof -
  have h: "users app_init STUDENT_ID = Some (the (users app_init STUDENT_ID))"
    by (simp add: app_init_def)
  from end_session_blocks [OF h, of "''10:00:00''" None "''10:00:01''"] show ?thesis by simp
qed

text \<open>
  C35: the error paths of \<open>submit_answer\<close> for an active user: an
  exam id missing from \<open>EXAMS\<close> raises \<open>TypeError\<close> (at \<open>len(exam)\<close>), and a
  request without a JSON body raises \<open>AttributeError\<close> (at \<open>data.get\<close>) before any
  change.
\<close>

theorem submit_errors:
  assumes "users st sid = Some u" and "\<not> submitted u"
  shows "(exams st (exam_id u) = None \<longrightarrow> submit_answer st sid d ts = Inl TypeError) \<and>
         (\<forall>ex. exams st (exam_id u) = Some ex \<longrightarrow> 0 \<le> current_q_index u \<longrightarrow>
               current_q_index u < int (length ex) \<longrightarrow> submit_answer st sid None ts = Inl AttributeError)"
  using assms by (simp add: submit_answer_def Let_def)

theorem submit_errors_witness:
  "submit_answer app_init STUDENT_ID None ''10:00:00'' = Inl AttributeError"
proof -
  have h: "users app_init STUDENT_ID = Some (the (users app_init STUDENT_ID))"
    "\<not> submitted (the (users app_init STUDENT_ID))"
    by (simp_all add: app_init_def)
  from submit_errors [OF h, of None "''10:00:00''"] show ?thesis
    by (simp add: app_init_def exam_001_def)
qed

end
