(* ===== verification/Video_Feed.thy ===== *)
theory Video_Feed
  imports Camera Exam
begin

text \<open>
  Where the web layer meets the camera (\<open>src/app.py\<close>, lines 145--162): the route
  \<open>video_feed\<close> starts the singleton with the central log handler as its callback, and
  the generator \<open>gen\<close> turns the buffers \<open>get_frame\<close> returns into the parts of a
  \<open>multipart/x-mixed-replace\<close> stream.  The callable \<open>central_log_handler\<close> is
  identified by the number \<open>CENTRAL_LOG_HANDLER\<close> in \<open>Camera.log_callback\<close>; a call
  the camera makes to it runs \<open>Exam.central_log_handler\<close> on the application state.
\<close>

section \<open>Definitions\<close>

definition CENTRAL_LOG_HANDLER :: nat where
  "CENTRAL_LOG_HANDLER = 0"

text \<open>
  Lines 145--154.  \<open>VideoCamera()\<close> creates an instance, but all state is class-level,
  so the route acts on the one camera state.  \<open>None\<close> is the 404 answer
  \<open>"Error: Student not found"\<close>; \<open>Some started\<close> is the streaming response, with
  whether \<open>initialize\<close> started a thread.
\<close>

definition video_feed :: "cam_state \<Rightarrow> string \<Rightarrow> nat \<Rightarrow> cam_state \<times> bool option" where
  "video_feed cs sid tid =
     (if sid = STUDENT_ID
      then (case initialize cs sid CENTRAL_LOG_HANDLER tid of (cs', started) \<Rightarrow> (cs', Some started))
      else (cs, None))"

text \<open>The byte strings of lines 161--162.\<close>

definition crlf :: string where
  "crlf = [CHR 0x0D, CHR 0x0A]"

definition part_header :: bytes where
  "part_header = ascii_bytes (''--frame'' @ crlf @ ''Content-Type: image/jpeg'' @ crlf @ crlf)"

definition frame_part :: "bytes \<Rightarrow> bytes" where
  "frame_part f = part_header @ f @ ascii_bytes crlf"

text \<open>
  Lines 156--162: one pass of the generator's loop over the buffer \<open>get_frame\<close>
  returned: an empty buffer (\<open>b''\<close>, falsy) yields nothing.  The stream is the parts of
  the successive buffers.
\<close>

definition gen_step :: "bytes \<Rightarrow> bytes list" where
  "gen_step f = (if f \<noteq> [] then [frame_part f] else [])"

definition gen_stream :: "bytes list \<Rightarrow> bytes list" where
  "gen_stream fs = concat (map gen_step fs)"

text \<open>What a client of the stream does with a part: strip the header and the trailing CRLF.\<close>

definition unframe :: "bytes \<Rightarrow> bytes option" where
  "unframe p =
     (let h = length part_header in
      if h + 2 \<le> length p \<and> take h p = part_header \<and> drop (length p - 2) p = ascii_bytes crlf
      then Some (take (length p - h - 2) (drop h p)) else None)"

text \<open>A call the camera made, run by the application: \<open>log_callback(sid, 'video', level, msg)\<close> at time \<open>ts\<close>.\<close>

definition run_call :: "app_state \<Rightarrow> log_call \<Rightarrow> string \<Rightarrow> app_state" where
  "run_call st c ts =
     (if lc_sink c = CENTRAL_LOG_HANDLER
      then central_log_handler st (lc_student c) (lc_type c) (lc_level c) (lc_msg c) ts
      else st)"

fun run_calls :: "app_state \<Rightarrow> log_call list \<Rightarrow> string list \<Rightarrow> app_state" where
  "run_calls st (c # cs) (t # ts) = run_calls (run_call st c t) cs ts"
| "run_calls st _ _ = st"

section \<open>Lemmas\<close>

lemma unframe_frame_part [simp]: "unframe (frame_part f) = Some f"
  by (simp add: unframe_def frame_part_def Let_def crlf_def ascii_bytes_def)

lemma loop_calls_registered:
  "log_callback s = Some CENTRAL_LOG_HANDLER \<Longrightarrow> student_id s = Some STUDENT_ID \<Longrightarrow>
   loop_calls s evs = map (\<lambda>(st, l, m). \<lparr>lc_sink = CENTRAL_LOG_HANDLER, lc_student = STUDENT_ID,
      lc_type = ''video'', lc_level = l, lc_msg = m\<rparr>) evs"
  by (induction evs) (auto simp: delivered_def registered_def STUDENT_ID_def)

lemma run_calls_video:
  assumes "session_logs st sid = Some lg" and "length (evs :: event list) \<le> length tss"
  shows "session_logs (run_calls st (map (\<lambda>(st, l, m). \<lparr>lc_sink = CENTRAL_LOG_HANDLER, lc_student = sid,
      lc_type = ''video'', lc_level = l, lc_msg = m\<rparr>) evs) tss) =
    (session_logs st)(sid \<mapsto> lg\<lparr>video_warnings := video_warnings lg @
      map (\<lambda>((st, l, m), t). \<lparr>le_time = t, le_type = ''video'', le_level = l, le_message = m\<rparr>) (zip evs tss)\<rparr>)"
  using assms
proof (induction evs arbitrary: st lg tss)
  case Nil
  then show ?case by (simp add: fun_upd_idem)
next
  case (Cons e evs)
  let ?f = "\<lambda>(st :: face_status, l, m). \<lparr>lc_sink = CENTRAL_LOG_HANDLER, lc_student = sid,
      lc_type = ''video'', lc_level = l, lc_msg = m\<rparr>"
  let ?g = "\<lambda>((st :: face_status, l, m), t). \<lparr>le_time = t, le_type = ''video'', le_level = l, le_message = m\<rparr>"
  obtain t ts where tss: "tss = t # ts" using Cons.prems(2) by (cases tss) auto
  obtain a l m where e: "e = (a, l, m)" by (cases e) auto
  let ?lg' = "lg\<lparr>video_warnings := video_warnings lg @ [\<lparr>le_time = t, le_type = ''video'', le_level = l, le_message = m\<rparr>]\<rparr>"
  let ?st' = "central_log_handler st sid ''video'' l m t"
  have st': "session_logs ?st' = (session_logs st)(sid \<mapsto> ?lg')"
    using Cons.prems(1) by (simp add: central_log_handler_def)
  have len: "length evs \<le> length ts" using Cons.prems(2) tss by simp
  have "session_logs (run_calls st (map ?f (e # evs)) tss) = session_logs (run_calls ?st' (map ?f evs) ts)"
    by (simp add: tss e run_call_def)
  also have "\<dots> = (session_logs ?st')(sid \<mapsto> ?lg'\<lparr>video_warnings := video_warnings ?lg' @ map ?g (zip evs ts)\<rparr>)"
    using st' len by (intro Cons.IH) simp_all
  also have "\<dots> = (session_logs st)(sid \<mapsto> ?lg'\<lparr>video_warnings := video_warnings ?lg' @ map ?g (zip evs ts)\<rparr>)"
    by (simp add: st')
  also have "\<dots> = (session_logs st)(sid \<mapsto> lg\<lparr>video_warnings := video_warnings lg @ map ?g (zip (e # evs) tss)\<rparr>)"
    by (simp add: tss e)
  finally show ?case .
qed

lemma video_feed_fields:
  "calls (fst (video_feed cs STUDENT_ID tid)) = calls cs"
  "log_callback (fst (video_feed cs STUDENT_ID tid)) = Some CENTRAL_LOG_HANDLER"
  "student_id (fst (video_feed cs STUDENT_ID tid)) = Some STUDENT_ID"
  by (simp_all add: video_feed_def initialize_def Let_def)


section \<open>Properties of the streaming routes\<close>

text \<open>
  C32: the stream carries every non-empty buffer that
  \<open>get_frame\<close> returned, in order and intact (a client stripping each part's header
  and trailer gets the buffers back); empty buffers produce no part.
\<close>

theorem stream_roundtrip: "map unframe (gen_stream fs) = map Some (filter (\<lambda>f. f \<noteq> []) fs)"
  by (induction fs) (simp_all add: gen_stream_def gen_step_def)

text \<open>
  C27: \<open>video_feed\<close> for the configured student registers the
  central log handler and that student as the camera's callback and id, and starts a
  thread exactly when none was recorded; for any other student it answers 404 and leaves
  the camera alone.
\<close>

theorem video_feed_registers:
  "(sid = STUDENT_ID \<longrightarrow>
      log_callback (fst (video_feed cs sid tid)) = Some CENTRAL_LOG_HANDLER \<and>
      student_id (fst (video_feed cs sid tid)) = Some STUDENT_ID \<and>
      registered (fst (video_feed cs sid tid)) \<and>
      snd (video_feed cs sid tid) = Some (thread cs = None)) \<and>
   (sid \<noteq> STUDENT_ID \<longrightarrow> video_feed cs sid tid = (cs, None))"
  by (simp add: video_feed_def initialize_def Let_def registered_def STUDENT_ID_def)

theorem video_feed_registers_witness:
  "registered (fst (video_feed (cam_init 0) STUDENT_ID 1)) \<and> video_feed (cam_init 0) ''student_999'' 1 = (cam_init 0, None)"
  using video_feed_registers [of STUDENT_ID "cam_init 0" 1] video_feed_registers [of "''student_999''" "cam_init 0" 1]
  by (simp add: STUDENT_ID_def)

text \<open>
  C19: when neither camera opens after \<open>video_feed\<close>
  started the thread, no event is logged and every later \<open>get_frame\<close> returns
  \<open>b''\<close>, from which \<open>gen\<close> yields nothing: the stream stays empty.
\<close>

theorem device_failure_empty_stream:
  assumes "thread cs = None"
  shows "snd (worker (fst (video_feed cs STUDENT_ID tid)) False False os) = Device_failed \<and>
         calls (fst (worker (fst (video_feed cs STUDENT_ID tid)) False False os)) = calls cs \<and>
         gen_step (the (snd (get_frame (fst (worker (fst (video_feed cs STUDENT_ID tid)) False False os)) now))) = []"
  using assms by (simp add: video_feed_def initialize_def worker_def thread_start_def get_frame_def
      get_frame_poll_def gen_step_def Let_def)

theorem device_failure_empty_stream_witness:
  "gen_step (the (snd (get_frame (fst (worker (fst (video_feed (cam_init 0) STUDENT_ID 1)) False False [])) 5))) = []"
proof -
  have h: "thread (cam_init 0) = None" by (simp add: cam_init_def)
  from device_failure_empty_stream [OF h, of 1 "[]" 5] show ?thesis by blast
qed

end
