(* ===== verification/Exam_Spec.thy ===== *)
theory Exam_Spec
  imports Exam
begin

text \<open>
  What the exam routes promise, as an abstract specification: a student's exam is the
  list of answers given, one per question in order, and whether it has ended; an answer
  is taken while the exam is open and ends it at the last question, the proctor's
  \<open>end_session\<close> ends it at once, and the score is the number of given answers that
  are right.  \<open>exam_abs\<close> reads this abstract state off a \<open>USERS\<close> entry, and
  \<open>op_of\<close> says which requests are operations of the specification.  The refinement
  theorem shows that \<open>app_run\<close>, on any request sequence, moves the student exactly as
  the specification does.
\<close>

section \<open>The specification\<close>

datatype exam_op = Answer "string option" | Force_end

record exam_spec =
  given :: "string option list"
  ended :: bool

definition exam_spec_init :: exam_spec where
  "exam_spec_init = \<lparr>given = [], ended = False\<rparr>"

definition exam_spec_step :: "question list \<Rightarrow> exam_spec \<Rightarrow> exam_op \<Rightarrow> exam_spec" where
  "exam_spec_step ex e op =
     (case op of
        Answer sel \<Rightarrow>
          if ended e \<or> length ex \<le> length (given e) then e
          else \<lparr>given = given e @ [sel], ended = (length ex \<le> Suc (length (given e)))\<rparr>
      | Force_end \<Rightarrow> e\<lparr>ended := True\<rparr>)"

definition spec_score :: "question list \<Rightarrow> exam_spec \<Rightarrow> nat" where
  "spec_score ex e = length (filter (\<lambda>(q, a). a = Some (answer q)) (zip ex (given e)))"

text \<open>
  The requests that are operations of the specification for student \<open>sid\<close>: an answer
  submitted with a JSON body (\<open>data.get('selected_option')\<close>, possibly absent), and the
  proctor's end-session.  Every other request leaves the student's entry alone.
\<close>

fun op_of :: "string \<Rightarrow> request \<Rightarrow> exam_op option" where
  "op_of sid (Submit_answer s (Some d)) = (if s = sid then Some (Answer (d ''selected_option'')) else None)"
| "op_of sid (End_session s) = (if s = sid then Some Force_end else None)"
| "op_of sid _ = None"

definition exam_ops :: "string \<Rightarrow> (request \<times> string) list \<Rightarrow> exam_op list" where
  "exam_ops sid rs = List.map_filter (\<lambda>(req, ts). op_of sid req) rs"

text \<open>
  The abstraction: the answers recorded for the questions before the student's index, in
  order, and the \<open>submitted\<close> flag.
\<close>

definition recorded :: "user \<Rightarrow> question \<Rightarrow> string option" where
  "recorded u q = (case answers u (qid q) of Some a \<Rightarrow> a | None \<Rightarrow> None)"

definition exam_abs :: "question list \<Rightarrow> user \<Rightarrow> exam_spec" where
  "exam_abs ex u = \<lparr>given = map (recorded u) (take (nat (current_q_index u)) ex), ended = submitted u\<rparr>"

section \<open>Lemmas\<close>

lemma take_map_upd:
  assumes "distinct (map qid ex)" and "i < length ex"
  shows "map (\<lambda>q. case (ans(qid (ex ! i) \<mapsto> sel)) (qid q) of Some a \<Rightarrow> a | None \<Rightarrow> None) (take (Suc i) ex) =
         map (\<lambda>q. case ans (qid q) of Some a \<Rightarrow> a | None \<Rightarrow> None) (take i ex) @ [sel]"
proof -
  have take: "take (Suc i) ex = take i ex @ [ex ! i]" using assms(2) by (simp add: take_Suc_conv_app_nth)
  show ?thesis using qid_take_neq [OF assms] by (simp add: take)
qed

lemma spec_score_grade:
  "nat (current_q_index u) \<le> length ex \<Longrightarrow> spec_score ex (exam_abs ex u) = grade ex (answers u) (nat (current_q_index u))"
proof -
  have "zip ex (map f (take n ex)) = map (\<lambda>q. (q, f q)) (take n ex)" for f :: "question \<Rightarrow> string option" and n
    by (induction ex arbitrary: n) (auto simp: take_Cons split: nat.splits)
  moreover have "(\<lambda>q. recorded u q = Some (answer q)) = (\<lambda>q. answers u (qid q) = Some (Some (answer q)))"
    by (auto simp: recorded_def fun_eq_iff split: option.splits)
  ultimately show ?thesis
    by (simp add: spec_score_def exam_abs_def grade_def filter_map o_def)
qed

lemma submit_answer_user:
  assumes u: "users st sid = Some u" and ex: "exams st (exam_id u) = Some ex" and ok: "user_ok ex u"
  shows "\<exists>u'. users (fst (app_step st (Submit_answer sid (Some dd)) ts)) sid = Some u' \<and> exam_id u' = exam_id u \<and>
           exam_abs ex u' = exam_spec_step ex (exam_abs ex u) (Answer (dd ''selected_option''))"
proof (cases "submitted u")
  case True
  then show ?thesis using u by (simp add: app_step_def submit_answer_def exam_spec_step_def exam_abs_def)
next
  case False
  let ?q = "current_q_index u"
  let ?sel = "dd ''selected_option''"
  from ok False have q: "0 \<le> ?q" "?q < int (length ex)" and dist: "distinct (map qid ex)"
    by (auto simp: user_ok_def)
  then have nq: "nat ?q < length ex" by linarith
  let ?u1 = "u\<lparr>answers := (answers u)(qid (ex ! nat ?q) \<mapsto> ?sel)\<rparr>"
  let ?u3 = "(if ?sel = Some (answer (ex ! nat ?q)) then ?u1\<lparr>score := score u + 1\<rparr> else ?u1)\<lparr>current_q_index := ?q + 1\<rparr>"
  let ?u' = "?u3\<lparr>submitted := (int (length ex) \<le> ?q + 1)\<rparr>"
  have users': "users (fst (app_step st (Submit_answer sid (Some dd)) ts)) sid = Some ?u'"
    using u ex False q by (auto simp: app_step_def submit_answer_def Let_def)
  have rec: "recorded ?u' = (\<lambda>q. case ((answers u)(qid (ex ! nat ?q) \<mapsto> ?sel)) (qid q) of Some a \<Rightarrow> a | None \<Rightarrow> None)"
    by (rule ext) (simp add: recorded_def)
  have "recorded u = (\<lambda>q. case answers u (qid q) of Some a \<Rightarrow> a | None \<Rightarrow> None)"
    by (rule ext) (simp add: recorded_def)
  then have gv: "map (recorded ?u') (take (nat (?q + 1)) ex) = map (recorded u) (take (nat ?q) ex) @ [?sel]"
    using take_map_upd [OF dist nq, of "answers u" ?sel] q rec
    by (simp add: nat_add_distrib)
  have e: "(int (length ex) \<le> ?q + 1) = (length ex \<le> Suc (nat ?q))" using q(1) by arith
  have "exam_abs ex ?u' = exam_spec_step ex (exam_abs ex u) (Answer ?sel)"
    using gv False q nq e by (simp add: exam_abs_def exam_spec_step_def)
  with users' show ?thesis by auto
qed

lemma app_step_user:
  assumes u: "users st sid = Some u" and ex: "exams st (exam_id u) = Some ex" and ok: "user_ok ex u"
  shows "\<exists>u'. users (fst (app_step st req ts)) sid = Some u' \<and> exam_id u' = exam_id u \<and>
           exam_abs ex u' = (case op_of sid req of None \<Rightarrow> exam_abs ex u
                             | Some op \<Rightarrow> exam_spec_step ex (exam_abs ex u) op)"
proof (cases req)
  case (Submit_answer s d)
  show ?thesis
  proof (cases "s = sid")
    case False
    have "users (fst (app_step st req ts)) sid = users st sid"
      using False by (auto simp: Submit_answer app_step_def submit_answer_def Let_def
          split: sum.splits option.splits if_splits)
    with u False show ?thesis by (cases d) (simp_all add: Submit_answer)
  next
    case True
    show ?thesis
    proof (cases d)
      case None
      have "fst (app_step st req ts) = st"
        by (auto simp: Submit_answer None app_step_def submit_answer_def Let_def
            split: sum.splits option.splits if_splits)
      with u show ?thesis by (simp add: Submit_answer None)
    next
      case (Some dd)
      from submit_answer_user [OF u ex ok, of dd ts] show ?thesis by (simp add: Submit_answer Some True)
    qed
  qed
next
  case (End_session s)
  then show ?thesis using u
    by (cases "users st s")
       (auto simp: app_step_def admin_end_session_def exam_abs_def exam_spec_step_def recorded_def)
next
  case (Send_warning s d)
  then show ?thesis using u
    by (auto simp: app_step_def admin_send_warning_def Let_def split: option.splits)
next
  case (Log_browser_event d)
  then show ?thesis using u
    by (auto simp: app_step_def log_browser_event_def Let_def split: option.splits if_splits)
qed (use u in \<open>simp_all add: app_step_def\<close>)

lemma exam_ops_Cons [simp]:
  "exam_ops sid ((req, ts) # rs) = (case op_of sid req of None \<Rightarrow> exam_ops sid rs | Some op \<Rightarrow> op # exam_ops sid rs)"
  by (simp add: exam_ops_def List.map_filter_def split: option.splits)

lemma app_run_user:
  assumes "app_inv st" and "users st sid = Some u" and "exams st (exam_id u) = Some ex"
  shows "\<exists>u'. users (fst (app_run st rs)) sid = Some u' \<and> exam_id u' = exam_id u \<and>
           exam_abs ex u' = foldl (exam_spec_step ex) (exam_abs ex u) (exam_ops sid rs)"
  using assms
proof (induction st rs arbitrary: u rule: app_run.induct)
  case (1 st)
  then show ?case by (simp add: exam_ops_def List.map_filter_def)
next
  case (2 st req ts rs)
  have ok: "user_ok ex u" using "2.prems" by (auto simp: app_inv_def split: option.splits)
  obtain u1 where u1: "users (fst (app_step st req ts)) sid = Some u1" and eid: "exam_id u1 = exam_id u"
    and a1: "exam_abs ex u1 = (case op_of sid req of None \<Rightarrow> exam_abs ex u
                              | Some op \<Rightarrow> exam_spec_step ex (exam_abs ex u) op)"
    using app_step_user [OF "2.prems"(2,3) ok, of req ts] by blast
  have inv1: "app_inv (fst (app_step st req ts))" by (rule app_step_inv [OF "2.prems"(1)])
  have ex1: "exams (fst (app_step st req ts)) (exam_id u1) = Some ex"
    using "2.prems"(3) eid by (simp add: app_step_exams)
  obtain st1 r where st: "app_step st req ts = (st1, r)" by (cases "app_step st req ts")
  from "2.IH" [OF st [symmetric] refl, of u1] inv1 u1 ex1 st
  obtain u' where "users (fst (app_run st1 rs)) sid = Some u'" and "exam_id u' = exam_id u1"
    and "exam_abs ex u' = foldl (exam_spec_step ex) (exam_abs ex u1) (exam_ops sid rs)" by auto
  with a1 st eid show ?case by (auto split: prod.splits option.splits)
qed

lemma app_run_init_user:
  obtains u where "users (fst (app_run app_init rs)) STUDENT_ID = Some u"
    and "exams app_init (exam_id u) = Some exam_001"
    and "exam_abs exam_001 u = foldl (exam_spec_step exam_001) exam_spec_init (exam_ops STUDENT_ID rs)"
proof -
  have u0: "users app_init STUDENT_ID = Some (the (users app_init STUDENT_ID))"
    and e0: "exams app_init (exam_id (the (users app_init STUDENT_ID))) = Some exam_001"
    and a0: "exam_abs exam_001 (the (users app_init STUDENT_ID)) = exam_spec_init"
    by (simp_all add: app_init_def exam_abs_def exam_spec_init_def)
  from app_run_user [OF app_inv_init u0 e0, of rs] a0 e0 show ?thesis by (auto intro: that)
qed

section \<open>Refinement\<close>

text \<open>
  C10: from the initial database, after any sequence of requests the
  student is still a user, the abstract exam read off their entry is the specification
  run on the answers they submitted with a JSON body and the proctor's end-session
  requests for them, and their score is the specification's score.
\<close>

theorem exam_refines_spec:
  "\<exists>u. users (fst (app_run app_init rs)) STUDENT_ID = Some u \<and>
       exam_abs exam_001 u = foldl (exam_spec_step exam_001) exam_spec_init (exam_ops STUDENT_ID rs) \<and>
       score u = int (spec_score exam_001 (exam_abs exam_001 u))"
proof -
  obtain u where u: "users (fst (app_run app_init rs)) STUDENT_ID = Some u"
    and e: "exams app_init (exam_id u) = Some exam_001"
    and a: "exam_abs exam_001 u = foldl (exam_spec_step exam_001) exam_spec_init (exam_ops STUDENT_ID rs)"
    by (rule app_run_init_user)
  from app_run_from_init [OF u] e have "user_ok exam_001 u" by auto
  then have "nat (current_q_index u) \<le> length exam_001"
    and "score u = int (grade exam_001 (answers u) (nat (current_q_index u)))"
    by (auto simp: user_ok_def)
  then have "score u = int (spec_score exam_001 (exam_abs exam_001 u))"
    by (simp add: spec_score_grade)
  with u a show ?thesis by blast
qed

text \<open>
  C11: the student's page follows the specification: after any
  sequence of requests, \<open>index\<close> shows the results page exactly when the abstract exam
  has ended, and otherwise the exam page with its three questions.
\<close>

theorem index_follows_spec:
  "\<exists>u. users (fst (app_run app_init rs)) STUDENT_ID = Some u \<and>
       index (fst (app_run app_init rs)) =
         (if ended (foldl (exam_spec_step exam_001) exam_spec_init (exam_ops STUDENT_ID rs))
          then Inr (Results_page u) else Inr (Index_page STUDENT_ID 3))"
proof -
  obtain u where u: "users (fst (app_run app_init rs)) STUDENT_ID = Some u"
    and e: "exams app_init (exam_id u) = Some exam_001"
    and a: "exam_abs exam_001 u = foldl (exam_spec_step exam_001) exam_spec_init (exam_ops STUDENT_ID rs)"
    by (rule app_run_init_user)
  have ex: "exams (fst (app_run app_init rs)) (exam_id u) = Some exam_001"
    using e by (simp add: app_run_exams)
  have "ended (foldl (exam_spec_step exam_001) exam_spec_init (exam_ops STUDENT_ID rs)) = submitted u"
    by (simp flip: a add: exam_abs_def)
  with u ex show ?thesis by (simp add: index_def exam_001_def)
qed

end
