(* ===== verification/Exam_Threads.thy ===== *)
theory Exam_Threads
  imports Exam
begin

text \<open>
  \<open>app.run(..., threaded=True)\<close> serves each request on its own thread, and the
  route bodies share \<open>USERS\<close> without a lock.  This theory splits
  \<open>submit_answer\<close> (\<open>src/app.py\<close>, lines 83--118) where another thread can change
  the outcome: the reads and checks of lines 85--99, and the in-place updates of the
  user's dictionary in lines 101--117, which act on the dictionary as it is when they
  run.  Requests interleave as an inductive step relation; \<open>answer_write_serial\<close>
  checks that the two halves run back to back compute \<open>Exam.submit_answer\<close>.
\<close>

section \<open>State and steps\<close>

text \<open>Where a \<open>submit_answer\<close> request is: before its reads, or about to write with what it read.\<close>

datatype sub_pc =
    Sub_read string "json option"
  | Sub_write string "question list" int question "string option"

record ex_sys =
  db :: app_state
  reqs :: "nat \<rightharpoonup> sub_pc"

definition ex_sys_init :: ex_sys where
  "ex_sys_init = \<lparr>db = app_init, reqs = Map.empty\<rparr>"

text \<open>Lines 101--117 on the user as it is now: \<open>q\<close> is the index the request read.\<close>

definition answer_write :: "app_state \<Rightarrow> string \<Rightarrow> question list \<Rightarrow> int \<Rightarrow> question \<Rightarrow> string option \<Rightarrow> string \<Rightarrow> app_state" where
  "answer_write s sid ex q cq sel ts =
     (case users s sid of
        None \<Rightarrow> s
      | Some u \<Rightarrow>
          let u1 = u\<lparr>answers := (answers u)(qid cq \<mapsto> sel)\<rparr>;
              u2 = (if sel = Some (answer cq) then u1\<lparr>score := score u1 + 1\<rparr> else u1);
              u3 = u2\<lparr>current_q_index := current_q_index u2 + 1\<rparr>
          in if current_q_index u3 \<ge> int (length ex) then
               central_log_handler (s\<lparr>users := (users s)(sid \<mapsto> u3\<lparr>submitted := True\<rparr>)\<rparr>) sid ''system'' INFO
                 (''Exam submitted automatically. Score: '' @ str_int (score u3) @ ''/'' @ str_nat (length ex)) ts
             else
               central_log_handler (s\<lparr>users := (users s)(sid \<mapsto> u3)\<rparr>) sid ''system'' INFO
                 (''Answer submitted for Q'' @ str_int (q + 1) @ ''. Next question loaded.'') ts)"

text \<open>The routes other than \<open>submit_answer\<close>, taken as one step each.\<close>

fun is_submit :: "request \<Rightarrow> bool" where
  "is_submit (Submit_answer sid d) = True"
| "is_submit _ = False"

text \<open>
  A request arrives; passes the checks of lines 86--99 and reads the question; stops at
  one of the early returns or the exception of the serial route (which change nothing);
  or performs its writes.  Any other route runs in one step, as \<open>app_step\<close>.
\<close>

inductive ex_step :: "ex_sys \<Rightarrow> ex_sys \<Rightarrow> bool" where
  arrive:
    "reqs s rid = None \<Longrightarrow> ex_step s (s\<lparr>reqs := (reqs s)(rid \<mapsto> Sub_read sid d)\<rparr>)"
| read_go:
    "reqs s rid = Some (Sub_read sid (Some d)) \<Longrightarrow> users (db s) sid = Some u \<Longrightarrow> \<not> submitted u \<Longrightarrow>
     exams (db s) (exam_id u) = Some ex \<Longrightarrow> current_q_index u < int (length ex) \<Longrightarrow>
     py_index ex (current_q_index u) = Inr cq \<Longrightarrow>
     ex_step s (s\<lparr>reqs := (reqs s)(rid \<mapsto> Sub_write sid ex (current_q_index u) cq (d ''selected_option''))\<rparr>)"
| read_stop:
    "reqs s rid = Some (Sub_read sid d) \<Longrightarrow> fst (app_step (db s) (Submit_answer sid d) ts) = db s \<Longrightarrow>
     ex_step s (s\<lparr>reqs := (reqs s)(rid := None)\<rparr>)"
| write_back:
    "reqs s rid = Some (Sub_write sid ex q cq sel) \<Longrightarrow>
     ex_step s (s\<lparr>db := answer_write (db s) sid ex q cq sel ts, reqs := (reqs s)(rid := None)\<rparr>)"

| other_route:
    "\<not> is_submit req \<Longrightarrow> ex_step s (s\<lparr>db := fst (app_step (db s) req ts)\<rparr>)"

inductive ex_reach :: "ex_sys \<Rightarrow> bool" where
  ex_reach_init: "ex_reach ex_sys_init"
| ex_reach_step: "ex_reach s \<Longrightarrow> ex_step s s' \<Longrightarrow> ex_reach s'"

section \<open>Lemmas\<close>

lemma ex_reach_next: "ex_reach s \<Longrightarrow> ex_step s s' \<Longrightarrow> s' = s'' \<Longrightarrow> ex_reach s''"
  by (blast intro: ex_reach.ex_reach_step)

lemma answer_write_serial:
  assumes "users st sid = Some u" and "\<not> submitted u" and "exams st (exam_id u) = Some ex"
    and "current_q_index u < int (length ex)" and "py_index ex (current_q_index u) = Inr cq"
  shows "answer_write st sid ex (current_q_index u) cq (d ''selected_option'') ts =
         fst (app_step st (Submit_answer sid (Some d)) ts)"
  using assms by (simp add: answer_write_def app_step_def submit_answer_def Let_def split: sum.splits)

section \<open>Racing submissions\<close>

text \<open>
  C15: two submissions of the right answer to the first
  question that overlap (a double click) both read index 0 and both write: the student's
  index jumps to 2 with score 2, question 2 is skipped unanswered, and the score is no
  longer the number of right answers recorded, as serial requests always keep it.
\<close>

theorem racing_submit_breaks_score:
  "\<exists>s u. ex_reach s \<and> users (db s) STUDENT_ID = Some u \<and>
     current_q_index u = 2 \<and> score u = 2 \<and> answers u = [1 \<mapsto> Some ''B''] \<and>
     score u \<noteq> int (grade exam_001 (answers u) (nat (current_q_index u)))"
proof -
  let ?d = "[''selected_option'' \<mapsto> ''B'']"
  let ?u0 = "the (users app_init STUDENT_ID)"
  let ?cq = "hd exam_001"
  let ?s1 = "ex_sys_init\<lparr>reqs := [0 \<mapsto> Sub_read STUDENT_ID (Some ?d)]\<rparr>"
  let ?s2 = "ex_sys_init\<lparr>reqs := [0 \<mapsto> Sub_read STUDENT_ID (Some ?d), 1 \<mapsto> Sub_read STUDENT_ID (Some ?d)]\<rparr>"
  let ?s3 = "ex_sys_init\<lparr>reqs := [0 \<mapsto> Sub_write STUDENT_ID exam_001 0 ?cq (Some ''B''), 1 \<mapsto> Sub_read STUDENT_ID (Some ?d)]\<rparr>"
  let ?s4 = "ex_sys_init\<lparr>reqs := [0 \<mapsto> Sub_write STUDENT_ID exam_001 0 ?cq (Some ''B''), 1 \<mapsto> Sub_write STUDENT_ID exam_001 0 ?cq (Some ''B'')]\<rparr>"
  have r1: "ex_reach ?s1"
    by (rule ex_reach_next [OF ex_reach.ex_reach_init ex_step.arrive [of _ 0 STUDENT_ID "Some ?d"]]) (simp_all add: ex_sys_init_def)
  have r2: "ex_reach ?s2"
    by (rule ex_reach_next [OF r1 ex_step.arrive [of _ 1 STUDENT_ID "Some ?d"]]) (simp_all add: ex_sys_init_def fun_upd_twist)
  have r3: "ex_reach ?s3"
    by (rule ex_reach_next [OF r2 ex_step.read_go [of _ 0 STUDENT_ID ?d ?u0 exam_001 ?cq]])
       (simp_all add: ex_sys_init_def app_init_def exam_001_def py_index_def fun_upd_twist)
  have r4: "ex_reach ?s4"
    by (rule ex_reach_next [OF r3 ex_step.read_go [of _ 1 STUDENT_ID ?d ?u0 exam_001 ?cq]])
       (simp_all add: ex_sys_init_def app_init_def exam_001_def py_index_def fun_upd_twist)
  let ?s5 = "ex_sys_init\<lparr>db := answer_write app_init STUDENT_ID exam_001 0 ?cq (Some ''B'') ''t'',
                  reqs := [1 \<mapsto> Sub_write STUDENT_ID exam_001 0 ?cq (Some ''B'')]\<rparr>"
  have r5: "ex_reach ?s5"
    by (rule ex_reach_next [OF r4 ex_step.write_back [of _ 0 STUDENT_ID exam_001 0 ?cq "Some ''B''" "''t''"]])
       (simp_all add: ex_sys_init_def fun_upd_twist)
  let ?s6 = "ex_sys_init\<lparr>db := answer_write (answer_write app_init STUDENT_ID exam_001 0 ?cq (Some ''B'') ''t'')
                  STUDENT_ID exam_001 0 ?cq (Some ''B'') ''t'', reqs := Map.empty\<rparr>"
  have r6: "ex_reach ?s6"
    by (rule ex_reach_next [OF r5 ex_step.write_back [of _ 1 STUDENT_ID exam_001 0 ?cq "Some ''B''" "''t''"]])
       (simp_all add: ex_sys_init_def)
  have u: "users (db ?s6) STUDENT_ID = Some (?u0\<lparr>answers := [1 \<mapsto> Some ''B''], score := 2, current_q_index := 2\<rparr>)"
    by (simp add: answer_write_def app_init_def exam_001_def ex_sys_init_def Let_def central_log_handler_def STUDENT_ID_def)
  have g: "grade exam_001 [1 \<mapsto> Some ''B''] 2 = 1"
    by (simp add: grade_def exam_001_def)
  show ?thesis
    by (intro exI [of _ ?s6] exI [of _ "?u0\<lparr>answers := [1 \<mapsto> Some ''B''], score := 2, current_q_index := 2\<rparr>"]
        conjI r6 u) (simp_all add: g)
qed

text \<open>
  C16: the proctor's \<open>end_session\<close> does not stop a submission
  already past its checks: a request that read question 1 before the session was
  force-ended still records its answer and raises the score afterwards, although a
  submission made after the end is refused.
\<close>

theorem end_session_race:
  "\<exists>s s' u u'. ex_reach s \<and> ex_step s s' \<and>
     users (db s) STUDENT_ID = Some u \<and> status u = ''force_ended'' \<and> submitted u \<and> answers u = Map.empty \<and>
     users (db s') STUDENT_ID = Some u' \<and> answers u' = [1 \<mapsto> Some ''B''] \<and> score u' = 1"
proof -
  let ?d = "[''selected_option'' \<mapsto> ''B'']"
  let ?u0 = "the (users app_init STUDENT_ID)"
  let ?cq = "hd exam_001"
  let ?w = "Sub_write STUDENT_ID exam_001 0 ?cq (Some ''B'')"
  have r1: "ex_reach (ex_sys_init\<lparr>reqs := [0 \<mapsto> Sub_read STUDENT_ID (Some ?d)]\<rparr>)"
    by (rule ex_reach_next [OF ex_reach.ex_reach_init ex_step.arrive [of _ 0 STUDENT_ID "Some ?d"]])
       (simp_all add: ex_sys_init_def)
  have r2: "ex_reach (ex_sys_init\<lparr>reqs := [0 \<mapsto> ?w]\<rparr>)"
    by (rule ex_reach_next [OF r1 ex_step.read_go [of _ 0 STUDENT_ID ?d ?u0 exam_001 ?cq]])
       (simp_all add: ex_sys_init_def app_init_def exam_001_def py_index_def)
  let ?s = "ex_sys_init\<lparr>db := fst (app_step app_init (End_session STUDENT_ID) ''t''), reqs := [0 \<mapsto> ?w]\<rparr>"
  have r3: "ex_reach ?s"
    by (rule ex_reach_next [OF r2 ex_step.other_route [of "End_session STUDENT_ID" _ "''t''"]])
       (simp_all add: ex_sys_init_def)
  let ?s' = "?s\<lparr>db := answer_write (db ?s) STUDENT_ID exam_001 0 ?cq (Some ''B'') ''t'', reqs := Map.empty\<rparr>"
  have st: "ex_step ?s ?s'"
    using ex_step.write_back [of ?s 0 STUDENT_ID exam_001 0 ?cq "Some ''B''" "''t''"] by simp
  let ?ue = "?u0\<lparr>status := ''force_ended'', submitted := True\<rparr>"
  have u: "users (db ?s) STUDENT_ID = Some ?ue"
    by (simp add: ex_sys_init_def app_step_def admin_end_session_def app_init_def)
  let ?u' = "?ue\<lparr>answers := [1 \<mapsto> Some ''B''], score := 1, current_q_index := 1\<rparr>"
  have u': "users (db ?s') STUDENT_ID = Some ?u'"
    by (simp add: ex_sys_init_def app_step_def admin_end_session_def app_init_def answer_write_def
        exam_001_def Let_def central_log_handler_def STUDENT_ID_def)
  show ?thesis
    by (intro exI [of _ ?s] exI [of _ ?s'] exI [of _ ?ue] exI [of _ ?u'] conjI r3 st u u')
       (simp_all add: app_init_def)
qed

end
