(* ===== verification/Spec2Isabelle.thy ===== *)
theory Spec2Isabelle
  imports Worker_Sys Video_Feed Exam_Spec Exam_Threads
begin

text \<open>
  \<^bold>\<open>A verification library for the exam-cheat-detection portal.\<close>

  \<^bold>\<open>The program.\<close>  Two Python files.  \<open>src/camera.py\<close> holds the camera singleton
  \<open>Camera\<close> (alias \<open>VideoCamera\<close>): class attributes shared by every instance, the
  module global \<open>frame_count\<close>, the methods \<open>initialize\<close>, \<open>get_frame\<close> and
  \<open>log_event\<close>, and the background thread \<open>_thread\<close>, which opens the webcam (index 0,
  then 1), and then loops: read a frame, on every third frame count faces with a Haar
  cascade and decide through a debouncer whether to log, encode and publish the frame,
  sleep to hold 30 frames per second, and stop after ten seconds without a reader.
  \<open>src/app.py\<close> is a Flask application: a mock database of exams and users, a central
  log \<open>SESSION_LOGS\<close> fed by \<open>central_log_handler\<close>, the exam routes, the proctor's
  routes, browser-event logging, and \<open>video_feed\<close>/\<open>gen\<close>, which start the camera
  with \<open>central_log_handler\<close> as its logging callback and stream its frames.  The
  components interact through the camera's class attributes (written by request threads
  in \<open>initialize\<close>/\<open>get_frame\<close>, by the capture thread in the loop), through the
  callback, which the capture thread calls and which appends to \<open>SESSION_LOGS\<close>, and
  through the dictionaries of \<open>app.py\<close>, which Flask's request threads share.

  \<^bold>\<open>The theories.\<close>
  \<^item> \<open>Prelude\<close>: times (reals), byte strings (\<open>8 word list\<close>), log levels, Python
    exceptions, and models of the built-ins the code uses on data: \<open>str(n)\<close>
    (\<open>str_nat\<close>, with \<open>parse_nat\<close> its inverse), \<open>str.upper\<close>, list indexing
    \<open>py_index\<close>, \<open>bytes\<close> literals \<open>ascii_bytes\<close>.
  \<^item> \<open>Debounce\<close>: lines 89--116 of \<open>_thread\<close>.  \<open>classify\<close> maps \<open>len(faces)\<close> to
    status, level and message; the record \<open>debounce\<close> is the pair
    \<open>last_log_time\<close>/\<open>last_face_status\<close>; \<open>should_log\<close> is line 111;
    \<open>debounce_step\<close> one sample; \<open>debounce_run\<close> a sequence of samples.
  \<^item> \<open>Camera\<close>: the record \<open>cam_state\<close> extends \<open>debounce\<close> with the other class
    attributes and \<open>frame_count\<close>; \<open>initialize\<close>, \<open>get_frame\<close> (one poll) and
    \<open>get_frame_blocking\<close> (the whole wait, through the partial function
    \<open>wait_frame\<close>), \<open>log_event\<close> are the methods; \<open>thread_start\<close> (lines 55--70),
    \<open>iterate\<close> (one loop iteration, lines 80--134, with \<open>detect_log\<close> and the pacer
    \<open>pace_sleep\<close>), \<open>thread_exit\<close> (lines 136--137), \<open>run_loop\<close> and \<open>worker\<close> are
    the thread.  The calls made to the callback are recorded in the field \<open>calls\<close>.
  \<^item> \<open>Worker_Sys\<close>: the concurrency of the singleton.  An inductive step relation
    \<open>sys_step\<close> interleaves request threads, whose \<open>initialize\<close> is split between its
    test of \<open>Camera.thread\<close> and the assignment, with capture threads at their program
    points \<open>wpc\<close> (open, loop, release, clear) and readers' \<open>get_frame\<close>; \<open>reach\<close> is
    the reachable states, and its parameter \<open>serial\<close> excludes overlapping
    \<open>initialize\<close> calls.
  \<^item> \<open>Exam\<close>: \<open>app.py\<close> without the camera.  The record \<open>app_state\<close> holds
    \<open>EXAMS\<close>, \<open>USERS\<close> and \<open>SESSION_LOGS\<close> as maps; \<open>central_log_handler\<close> and each
    route (\<open>get_question\<close>, \<open>submit_answer\<close>, \<open>admin_send_warning\<close>,
    \<open>admin_end_session\<close>, \<open>get_latest_logs\<close>, \<open>log_browser_event\<close>) are functions
    into \<open>py_error + (app_state \<times> response)\<close>; \<open>app_step\<close> dispatches a request and
    \<open>app_run\<close> serves a sequence of them; \<open>index\<close> and \<open>admin\<close> give the page each
    renders.
  \<^item> \<open>Exam_Spec\<close>: the abstract specification of a student's exam (the answers given
    and whether it ended, with the score as the count of right answers) and the
    refinement of \<open>app_run\<close> to it.
  \<^item> \<open>Exam_Threads\<close>: \<open>submit_answer\<close> split at its reads and its writes, with
    requests interleaved by the step relation \<open>ex_step\<close>, as Flask's
    \<open>threaded=True\<close> serves them; every other route is one step.
  \<^item> \<open>Video_Feed\<close>: \<open>video_feed\<close>, the multipart framing of \<open>gen\<close>
    (\<open>gen_step\<close>, \<open>gen_stream\<close>), and \<open>run_calls\<close>, which runs the camera's callback
    calls on the application state.
  \<^item> This theory: the end-to-end property from frames to the admin's log.

  \<^bold>\<open>What is proved.\<close>  The claims are the theorems preceded by a text naming their id.
  The capture loop refines the debouncer on every third successfully read frame and
  publishes the last frame it read (\<open>Camera\<close>).  The debouncer reports every status
  change, is silent on steady alerts, never repeats an alert, and spaces equal emissions
  by more than five seconds (\<open>Debounce\<close>).  With serial \<open>initialize\<close> calls at most
  one capture thread lives and it is the one \<open>Camera.thread\<close> names, while overlapping
  calls reach a state with two; a teardown that completes lets a later
  \<open>initialize\<close> restart the loop (\<open>Worker_Sys\<close>).  \<open>Camera\<close> also covers the idle exit,
  the restart, the device-failure and read-failure paths, the termination of
  \<open>get_frame\<close>'s wait, the pacer's bounds and the unchecked encoder flag.  The exam
  routes keep each score equal to the number of correct recorded answers and freeze
  submitted users (\<open>Exam\<close>), and they refine the abstract exam specification, which
  the student's page follows (\<open>Exam_Spec\<close>).  The stream carries every non-empty frame
  intact (\<open>Video_Feed\<close>), and the video warnings the admin reads are exactly the
  debouncer's events (below).  Several theorems document where the code departs from
  the specification or from its own intent: the dead thread left in
  \<open>Camera.thread\<close> after a device failure, the idle test skipped by failed reads, the
  race in \<open>initialize\<close>, the \<open>initialize\<close> lost while the loop tears down, the
  ignored \<open>imencode\<close> flag, the global \<open>frame_count\<close> carried into a restarted
  thread, the strict five-second heartbeat and ten-second idle tests, the
  \<open>'system'\<close> log entries that \<open>central_log_handler\<close> drops, and, with threaded
  requests, the score corrupted by two overlapping submissions and the answer accepted
  after the proctor ended the session (\<open>Exam_Threads\<close>).

  \<^bold>\<open>Bounds and inputs.\<close>  There is no fuel.  The wait loop of \<open>get_frame\<close>, which
  need not end, is the partial function \<open>Camera.wait_frame\<close> into \<open>option\<close>, with the
  frames its successive polls read as input, and its termination is proved as such.
  The capture loop, which runs until the idle test fires, is modelled as structural
  recursion over a finite list of observations (\<open>obs\<close>, one per iteration), so every
  run of the model terminates, and the idle-exit theorem says which finite prefix makes
  it stop.  The thresholds are the code's: 3 for \<open>DETECTION_FRAME_SKIP\<close>, 5 s for the
  heartbeat, 10 s for the idle timeout, 1/30 s for the frame interval, all with the
  code's strict comparisons.  Clock readings, camera reads, face counts and encoder
  results are inputs, one per call of the library in the code; floats are read as
  reals.

  \<^bold>\<open>Not modelled.\<close>  OpenCV (\<open>VideoCapture\<close>, \<open>detectMultiScale\<close>, \<open>imencode\<close>,
  \<open>resize\<close>) and \<open>imutils\<close>, whose results are inputs; \<open>print\<close> output; the HTML
  templates (the pages \<open>index\<close> and \<open>admin\<close> are modelled as the template each renders
  with its arguments); Flask's HTTP layer; interleavings inside routes other than
  \<open>initialize\<close> and \<open>submit_answer\<close>, which are single steps; JSON values other than
  strings.

  \<^bold>\<open>Plan for the next sittings.\<close>  The readers' access times interleaved with the
  loop's idle test in \<open>Worker_Sys\<close> (a reader that keeps calling \<open>get_frame\<close> keeps
  the loop alive); the loop's iterations interleaved with other threads' steps, linked to
  \<open>Camera.run_loop\<close>.
\<close>

section \<open>From the camera to the admin's log\<close>

text \<open>
  C2: the whole detection pipeline end to end.  After
  \<open>video_feed\<close> has registered the central log handler for the configured student, and
  while no iteration of the capture loop reaches the idle timeout, the entries the
  loop's callback calls add to that student's \<open>video_warnings\<close> (run in order, with
  the timestamps \<open>tss\<close>) are exactly the events of the debouncer on every third
  successfully read frame, with their levels and messages, and nothing else changes in
  that student's log.
\<close>

theorem camera_events_reach_admin_log:
  assumes "session_logs st STUDENT_ID = Some lg"
    and "\<forall>ob \<in> set os. read_ok ob \<longrightarrow> t_idle ob - last_access cs \<le> 10"
    and "length os \<le> length tss"
  shows "let c1 = fst (video_feed cs STUDENT_ID tid) in
         session_logs (run_calls st (drop (length (calls cs)) (calls (fst (run_loop c1 os)))) tss) STUDENT_ID =
         Some (lg\<lparr>video_warnings := video_warnings lg @
           map (\<lambda>((st, l, m), t). \<lparr>le_time = t, le_type = ''video'', le_level = l, le_message = m\<rparr>)
             (zip (emitted c1 (samples_of (frame_count c1) os)) tss)\<rparr>)"
proof -
  let ?c1 = "fst (video_feed cs STUDENT_ID tid)"
  let ?evs = "emitted ?c1 (samples_of (frame_count ?c1) os)"
  have acc: "last_access ?c1 = last_access cs"
    by (simp add: video_feed_def initialize_def Let_def)
  with assms(2) have "\<forall>ob \<in> set os. read_ok ob \<longrightarrow> t_idle ob - last_access ?c1 \<le> 10" by simp
  from run_loop_debounce [OF this] have
    "calls (fst (run_loop ?c1 os)) = calls ?c1 @ loop_calls ?c1 ?evs" by blast
  then have new: "drop (length (calls cs)) (calls (fst (run_loop ?c1 os))) =
      map (\<lambda>(st, l, m). \<lparr>lc_sink = CENTRAL_LOG_HANDLER, lc_student = STUDENT_ID,
        lc_type = ''video'', lc_level = l, lc_msg = m\<rparr>) ?evs"
    by (simp add: video_feed_fields loop_calls_registered)
  have "length ?evs \<le> length tss"
    using length_emitted [of ?c1] length_samples_of [of "frame_count ?c1" os] assms(3)
    by (meson le_trans)
  from run_calls_video [OF assms(1) this] show ?thesis
    by (simp add: new Let_def)
qed

theorem camera_events_reach_admin_log_witness:
  "session_logs
     (run_calls app_init
        (drop 0 (calls (fst (run_loop (fst (video_feed (cam_init 0) STUDENT_ID 1))
           [\<lparr>read_ok = True, faces = 0, enc_ok = True, jpeg = [1], t_start = 1, t_check = 1,
             t_log = 1, t_end = 1, t_idle = 1\<rparr>]))))
        [''10:00:01'']) STUDENT_ID =
   Some (empty_log\<lparr>video_warnings := [\<lparr>le_time = ''10:00:01'', le_type = ''video'', le_level = CRITICAL,
     le_message = ''User Face NOT DETECTED (out of frame/covered).''\<rparr>]\<rparr>)"
proof -
  let ?os = "[\<lparr>read_ok = True, faces = 0, enc_ok = True, jpeg = [1 :: 8 word], t_start = 1 :: real,
              t_check = 1, t_log = 1, t_end = 1, t_idle = 1\<rparr>]"
  have h1: "session_logs app_init STUDENT_ID = Some empty_log" by (simp add: app_init_def)
  have h2: "\<forall>ob \<in> set ?os. read_ok ob \<longrightarrow> t_idle ob - last_access (cam_init 0) \<le> 10"
    by (simp add: cam_init_def)
  have h3: "length ?os \<le> length [''10:00:01'']" by simp
  from camera_events_reach_admin_log [OF h1 h2 h3, of 1] show ?thesis
    by (simp add: Let_def cam_init_def video_feed_def initialize_def DETECTION_FRAME_SKIP_def
        debounce_step_def should_log_def classify_def empty_log_def)
qed

end
